theory Spec2Isabelle
  imports Main
begin

section \<open>Values, errors and query states\<close>

text \<open>
  The cache is generic in the data type \<open>TData\<close>; a JavaScript value is modelled by
  \<open>jsvalue\<close>, with \<open>JUndefined\<close> for \<^verbatim>\<open>undefined\<close>. \<open>truthy\<close> is JavaScript's
  truthiness, which \<^verbatim>\<open>!entry?.state.data\<close> in \<^verbatim>\<open>directQuery\<close> tests (numbers are
  taken to be integers, so \<^verbatim>\<open>NaN\<close> is left out).
\<close>

datatype jsvalue = JUndefined | JNull | JBool bool | JNum int | JStr string | JObj nat

fun truthy :: "jsvalue \<Rightarrow> bool" where
  "truthy JUndefined = False"
| "truthy JNull = False"
| "truthy (JBool b) = b"
| "truthy (JNum n) = (n \<noteq> 0)"
| "truthy (JStr s) = (s \<noteq> [])"
| "truthy (JObj r) = True"

text \<open>
  An \<^verbatim>\<open>Error\<close> instance is \<open>ErrorObject message\<close>; \<open>ErrorOfString v\<close> stands for
  \<^verbatim>\<open>new Error(String(v))\<close>. A rejected promise carries any thrown value.
\<close>

datatype js_error = ErrorObject string | ErrorOfString jsvalue

datatype thrown = ThrownError js_error | ThrownValue jsvalue

text \<open>\<^verbatim>\<open>error instanceof Error ? error : new Error(String(error))\<close>\<close>

fun toError :: "thrown \<Rightarrow> js_error" where
  "toError (ThrownError e) = e"
| "toError (ThrownValue v) = ErrorOfString v"

datatype status = Idle | Loading | Fetching | First_success | Success | Error

record QueryState =
  status :: status
  data :: jsvalue
  error :: "js_error option"
  lastUpdatedAt :: int

text \<open>A fetch function and a subscriber callback are references, compared by identity.\<close>

type_synonym queryFn_ref = nat
type_synonym callback_ref = nat

record CacheEntry =
  state :: QueryState
  queryFn :: "queryFn_ref option"

subsection \<open>constants.ts\<close>

definition DEFAULT_STALE_TIME :: int where
  "DEFAULT_STALE_TIME = 0"

definition FORCE_STALE_TIME :: int where
  "FORCE_STALE_TIME = - 1"

definition ONE_SECOND_IN_MS :: int where
  "ONE_SECOND_IN_MS = 1000"

definition ONE_MINUTE_IN_MS :: int where
  "ONE_MINUTE_IN_MS = 60 * ONE_SECOND_IN_MS"

definition DEFAULT_GC_TIME :: int where
  "DEFAULT_GC_TIME = 5 * ONE_MINUTE_IN_MS"

definition FIRST_FETCH_SUCCESS_BACKGROUND_FETCH_BUFFER_WINDOW_MS :: int where
  "FIRST_FETCH_SUCCESS_BACKGROUND_FETCH_BUFFER_WINDOW_MS = 250"

subsection \<open>utils.ts\<close>

definition getDifferenceInMs :: "int \<Rightarrow> int \<Rightarrow> int" where
  "getDifferenceInMs startTime endTime = endTime - startTime"

text \<open>
  The outcome of the promise a fetch function returned, and \<^verbatim>\<open>handlePromise\<close>, which
  turns it into the pair \<^verbatim>\<open>[result, null]\<close> or \<^verbatim>\<open>[null, Error]\<close>. Its
  \<^verbatim>\<open>finallyCb\<close> is run by the caller's continuation below.
\<close>

datatype settled = Resolved jsvalue | Rejected thrown

fun handlePromise :: "settled \<Rightarrow> jsvalue \<times> js_error option" where
  "handlePromise (Resolved result) = (result, None)"
| "handlePromise (Rejected e) = (JNull, Some (toError e))"

section \<open>The query cache\<close>

text \<open>
  What an \<^verbatim>\<open>async\<close> method holds across its \<^verbatim>\<open>await\<close>: the variables its
  continuation reads. \<open>DirectPending queryKey queryFn entry\<close> belongs to
  \<^verbatim>\<open>directQuery\<close>, \<open>BackgroundPending queryKey queryFn entry prevLastUpdatedAt\<close> to
  \<^verbatim>\<open>backgroundQuery\<close>.
\<close>

datatype pending =
    DirectPending string queryFn_ref "CacheEntry option"
  | BackgroundPending string queryFn_ref CacheEntry int

text \<open>
  The fields of the class \<^verbatim>\<open>QueryCache\<close>, followed by the part of the JavaScript
  runtime its methods act on: the armed \<^verbatim>\<open>setTimeout\<close> callbacks (handle to captured
  key and delay), the next timer handle and promise, the continuations waiting for a
  promise, and two logs, of the fetch functions invoked (with the key they were invoked
  for) and of the subscriber callbacks invoked. A subscriber callback is recorded when
  it is called, not run: what a component does on a notification is a later operation
  on the cache. A \<^verbatim>\<open>Set\<close> of callbacks is a list without duplicates in insertion
  order.
\<close>

record QueryCache =
  cache :: "string \<rightharpoonup> CacheEntry"
  promisesInFlight :: "string \<rightharpoonup> nat"
  subscribers :: "string \<rightharpoonup> callback_ref list"
  gcTimeouts :: "string \<rightharpoonup> nat"
  gcQueue :: "string set"
  gcTime :: int
  staleTime :: int
  timers :: "nat \<rightharpoonup> string \<times> int"
  nextTimer :: nat
  nextPromise :: nat
  awaiting :: "nat \<rightharpoonup> pending"
  queryFnCalls :: "(string \<times> queryFn_ref) list"
  notified :: "(string \<times> callback_ref) list"

text \<open>The constructor; timer handles are positive integers.\<close>

definition new_QueryCache :: "int option \<Rightarrow> int option \<Rightarrow> QueryCache" where
  "new_QueryCache config_gcTime config_staleTime =
     \<lparr> cache = Map.empty, promisesInFlight = Map.empty, subscribers = Map.empty,
       gcTimeouts = Map.empty, gcQueue = {},
       gcTime = (case config_gcTime of None \<Rightarrow> DEFAULT_GC_TIME | Some t \<Rightarrow> t),
       staleTime = (case config_staleTime of None \<Rightarrow> DEFAULT_STALE_TIME | Some t \<Rightarrow> t),
       timers = Map.empty, nextTimer = 1, nextPromise = 0, awaiting = Map.empty,
       queryFnCalls = [], notified = [] \<rparr>"

definition getSubscriberCount :: "string \<Rightarrow> QueryCache \<Rightarrow> nat" where
  "getSubscriberCount queryKey s =
     (case subscribers s queryKey of None \<Rightarrow> 0 | Some subs \<Rightarrow> length subs)"

definition clearTimeout :: "nat \<Rightarrow> QueryCache \<Rightarrow> QueryCache" where
  "clearTimeout h s = s\<lparr>timers := (timers s)(h := None)\<rparr>"

definition scheduleGC :: "string \<Rightarrow> QueryCache \<Rightarrow> QueryCache" where
  "scheduleGC queryKey s =
     (let s1 = (case gcTimeouts s queryKey of
                  None \<Rightarrow> s
                | Some existingTimeout \<Rightarrow>
                    if existingTimeout \<noteq> 0 then clearTimeout existingTimeout s else s);
          timeout = nextTimer s1;
          s2 = s1\<lparr>timers := (timers s1)(timeout \<mapsto> (queryKey, gcTime s1)),
                  nextTimer := Suc timeout\<rparr>
      in s2\<lparr>gcTimeouts := (gcTimeouts s2)(queryKey \<mapsto> timeout)\<rparr>)"

text \<open>The callback \<^verbatim>\<open>scheduleGC\<close> hands to \<^verbatim>\<open>setTimeout\<close>, and a timer firing.\<close>

definition gcCallback :: "string \<Rightarrow> QueryCache \<Rightarrow> QueryCache" where
  "gcCallback queryKey s =
     s\<lparr>cache := (cache s)(queryKey := None),
       promisesInFlight := (promisesInFlight s)(queryKey := None),
       subscribers := (subscribers s)(queryKey := None),
       gcTimeouts := (gcTimeouts s)(queryKey := None)\<rparr>"

definition fireTimer :: "nat \<Rightarrow> QueryCache \<Rightarrow> QueryCache" where
  "fireTimer h s =
     (case timers s h of
        None \<Rightarrow> s
      | Some (queryKey, delay) \<Rightarrow> gcCallback queryKey (s\<lparr>timers := (timers s)(h := None)\<rparr>))"

definition subscribe :: "string \<Rightarrow> callback_ref \<Rightarrow> QueryCache \<Rightarrow> QueryCache" where
  "subscribe queryKey callback s =
     (let subs = (case subscribers s queryKey of None \<Rightarrow> [] | Some xs \<Rightarrow> xs);
          subs' = (if callback \<in> set subs then subs else subs @ [callback])
      in s\<lparr>subscribers := (subscribers s)(queryKey \<mapsto> subs')\<rparr>)"

definition unsubscribe :: "string \<Rightarrow> callback_ref \<Rightarrow> QueryCache \<Rightarrow> QueryCache" where
  "unsubscribe queryKey callback s =
     (case subscribers s queryKey of
        None \<Rightarrow> s
      | Some subs \<Rightarrow>
          (let s1 = s\<lparr>subscribers := (subscribers s)(queryKey \<mapsto> removeAll callback subs)\<rparr>
           in if getSubscriberCount queryKey s1 = 0
              then scheduleGC queryKey
                     (s1\<lparr>subscribers := (subscribers s1)(queryKey := None),
                         gcQueue := insert queryKey (gcQueue s1)\<rparr>)
              else s1))"

definition getState :: "string \<Rightarrow> QueryCache \<Rightarrow> QueryState option" where
  "getState queryKey s = map_option state (cache s queryKey)"

definition getCacheEntry :: "string \<Rightarrow> QueryCache \<Rightarrow> CacheEntry option" where
  "getCacheEntry queryKey s = cache s queryKey"

definition clear :: "QueryCache \<Rightarrow> QueryCache" where
  "clear s = s\<lparr>cache := Map.empty, promisesInFlight := Map.empty, subscribers := Map.empty,
              gcTimeouts := Map.empty, gcQueue := {}\<rparr>"

definition hasQuery :: "string \<Rightarrow> QueryCache \<Rightarrow> bool" where
  "hasQuery queryKey s = (cache s queryKey \<noteq> None)"

definition set_entry :: "string \<Rightarrow> QueryState \<Rightarrow> queryFn_ref option \<Rightarrow> QueryCache \<Rightarrow> QueryCache" where
  "set_entry queryKey st fn s = s\<lparr>cache := (cache s)(queryKey \<mapsto> \<lparr>state = st, queryFn = fn\<rparr>)\<rparr>"

definition notifySubscribers :: "string \<Rightarrow> QueryCache \<Rightarrow> QueryCache" where
  "notifySubscribers queryKey s =
     (case subscribers s queryKey of
        None \<Rightarrow> s
      | Some subs \<Rightarrow> s\<lparr>notified := notified s @ map (\<lambda>callback. (queryKey, callback)) subs\<rparr>)"

definition setAndNotifySubscribers ::
    "string \<Rightarrow> QueryState \<Rightarrow> queryFn_ref option \<Rightarrow> QueryCache \<Rightarrow> QueryCache" where
  "setAndNotifySubscribers queryKey st fn s = notifySubscribers queryKey (set_entry queryKey st fn s)"

definition setData :: "int \<Rightarrow> string \<Rightarrow> jsvalue \<Rightarrow> QueryCache \<Rightarrow> QueryCache" where
  "setData now queryKey d s =
     setAndNotifySubscribers queryKey
       \<lparr>status = Success, data = d, error = None, lastUpdatedAt = now\<rparr>
       (case cache s queryKey of None \<Rightarrow> None | Some entry \<Rightarrow> queryFn entry) s"

subsection \<open>Fetching\<close>

text \<open>
  An \<^verbatim>\<open>async\<close> method runs in two parts. The first, up to its \<^verbatim>\<open>await\<close>, is the
  function named after the method: it takes the value \<open>now\<close> that \<^verbatim>\<open>Date.now()\<close> has
  while this part runs and,
  where the method calls \<^verbatim>\<open>queryFn()\<close>, logs the call, takes the next promise, registers it
  in \<open>promisesInFlight\<close> and leaves the continuation in \<open>awaiting\<close>. The second, the
  \<open>_resume\<close> function, runs when that promise settles, and returns how the method's own
  promise completes.
\<close>

datatype completion = Fulfilled | RejectedWith thrown

definition call_queryFn :: "string \<Rightarrow> queryFn_ref \<Rightarrow> pending \<Rightarrow> QueryCache \<Rightarrow> QueryCache" where
  "call_queryFn queryKey fn continuation s =
     (let promise = nextPromise s;
          s1 = s\<lparr>queryFnCalls := queryFnCalls s @ [(queryKey, fn)], nextPromise := Suc promise\<rparr>
      in s1\<lparr>promisesInFlight := (promisesInFlight s1)(queryKey \<mapsto> promise),
             awaiting := (awaiting s1)(promise \<mapsto> continuation)\<rparr>)"

text \<open>The \<^verbatim>\<open>finallyCb\<close> both fetch paths pass to \<^verbatim>\<open>handlePromise\<close>.\<close>

definition finallyCb :: "string \<Rightarrow> QueryCache \<Rightarrow> QueryCache" where
  "finallyCb queryKey s = s\<lparr>promisesInFlight := (promisesInFlight s)(queryKey := None)\<rparr>"

text \<open>\<^verbatim>\<open>entry?.state.data\<close> and \<^verbatim>\<open>entry?.state.status === 'loading'\<close>\<close>

definition entry_data :: "CacheEntry option \<Rightarrow> jsvalue" where
  "entry_data entry = (case entry of None \<Rightarrow> JUndefined | Some e \<Rightarrow> data (state e))"

definition entry_is_loading :: "CacheEntry option \<Rightarrow> bool" where
  "entry_is_loading entry = (case entry of None \<Rightarrow> False | Some e \<Rightarrow> status (state e) = Loading)"

definition directQuery ::
    "int \<Rightarrow> string \<Rightarrow> queryFn_ref \<Rightarrow> jsvalue \<Rightarrow> QueryCache \<Rightarrow> QueryCache" where
  "directQuery now queryKey fn initialData s =
     (let promiseInFlight = promisesInFlight s queryKey;
          entry = cache s queryKey
      in if promiseInFlight \<noteq> None \<or> entry_is_loading entry then s
         else
           let shouldInitializeWithInitialData =
                 (promiseInFlight = None \<and> initialData \<noteq> JUndefined \<and>
                  entry_data entry = JUndefined)
           in if shouldInitializeWithInitialData
              then setAndNotifySubscribers queryKey
                     \<lparr>status = First_success, data = initialData, error = None,
                      lastUpdatedAt = now\<rparr>
                     (Some fn) s
              else
                let s1 = setAndNotifySubscribers queryKey
                           \<lparr>status = Loading, data = JUndefined, error = None,
                            lastUpdatedAt = now\<rparr>
                           None s
                in call_queryFn queryKey fn (DirectPending queryKey fn entry) s1)"

definition directQuery_resume ::
    "int \<Rightarrow> string \<Rightarrow> queryFn_ref \<Rightarrow> CacheEntry option \<Rightarrow> settled \<Rightarrow> QueryCache
     \<Rightarrow> completion \<times> QueryCache" where
  "directQuery_resume now queryKey fn entry outcome s =
     (let (d, err) = handlePromise outcome;
          s1 = finallyCb queryKey s
      in case err of
           Some e \<Rightarrow>
             (Fulfilled,
              setAndNotifySubscribers queryKey
                \<lparr>status = Error, data = JUndefined, error = Some e,
                 lastUpdatedAt = FORCE_STALE_TIME\<rparr>
                (Some fn) s1)
         | None \<Rightarrow>
             (let isFirstFetchForQuery = (\<not> truthy (entry_data entry))
              in (Fulfilled,
                  setAndNotifySubscribers queryKey
                    \<lparr>status = (if isFirstFetchForQuery then First_success else Success),
                     data = d, error = None, lastUpdatedAt = now\<rparr>
                    (Some fn) s1)))"

definition backgroundQuery :: "int \<Rightarrow> string \<Rightarrow> queryFn_ref \<Rightarrow> QueryCache \<Rightarrow> QueryCache" where
  "backgroundQuery now queryKey fn s =
     (case (promisesInFlight s queryKey, cache s queryKey) of
        (Some promiseInFlight, _) \<Rightarrow> s
      | (None, None) \<Rightarrow> s
      | (None, Some entry) \<Rightarrow>
          (let isNotInAnySuccessStates =
                 (status (state entry) \<noteq> Success \<and> status (state entry) \<noteq> First_success);
               isFetching = (status (state entry) = Fetching)
           in if isNotInAnySuccessStates \<or> isFetching then s
              else
                let differenceInMs = getDifferenceInMs (lastUpdatedAt (state entry)) now;
                    isStale = (differenceInMs > staleTime s)
                in if \<not> isStale then s
                   else
                     let isFirstFetchSuccessForQuery = (status (state entry) = First_success);
                         isFirstFetchWithinBufferWindow =
                           (differenceInMs < FIRST_FETCH_SUCCESS_BACKGROUND_FETCH_BUFFER_WINDOW_MS)
                     in if isFirstFetchSuccessForQuery \<and> isFirstFetchWithinBufferWindow then s
                        else
                          let prevLastUpdatedAt = lastUpdatedAt (state entry);
                              s1 = setAndNotifySubscribers queryKey
                                     \<lparr>status = Fetching, data = data (state entry), error = None,
                                      lastUpdatedAt = now\<rparr>
                                     None s
                          in call_queryFn queryKey fn
                               (BackgroundPending queryKey fn entry prevLastUpdatedAt) s1))"

definition backgroundQuery_resume ::
    "int \<Rightarrow> string \<Rightarrow> queryFn_ref \<Rightarrow> CacheEntry \<Rightarrow> int \<Rightarrow> settled \<Rightarrow> QueryCache
     \<Rightarrow> completion \<times> QueryCache" where
  "backgroundQuery_resume now queryKey fn entry prevLastUpdatedAt outcome s =
     (let (d, err) = handlePromise outcome;
          s1 = finallyCb queryKey s
      in case err of
           Some e \<Rightarrow>
             (Fulfilled,
              setAndNotifySubscribers queryKey
                \<lparr>status = Success, data = data (state entry), error = None,
                 lastUpdatedAt = prevLastUpdatedAt\<rparr>
                (Some fn) s1)
         | None \<Rightarrow>
             (Fulfilled,
              setAndNotifySubscribers queryKey
                \<lparr>status = Success, data = d, error = None, lastUpdatedAt = now\<rparr>
                (Some fn) s1))"

text \<open>
  \<^verbatim>\<open>fetchQuery\<close> awaits the method it chose, so it completes as that one does;
  \<^verbatim>\<open>refetchQuery\<close> throws before any fetch when no fetch function is recorded.
\<close>

definition fetchQuery ::
    "int \<Rightarrow> string \<Rightarrow> queryFn_ref \<Rightarrow> jsvalue \<Rightarrow> QueryCache \<Rightarrow> QueryCache" where
  "fetchQuery now queryKey fn initialData s =
     (case cache s queryKey of
        None \<Rightarrow> directQuery now queryKey fn initialData s
      | Some entry \<Rightarrow> backgroundQuery now queryKey fn s)"

definition refetchQuery :: "int \<Rightarrow> string \<Rightarrow> QueryCache \<Rightarrow> js_error + QueryCache" where
  "refetchQuery now queryKey s =
     (case cache s queryKey of
        None \<Rightarrow> Inl (ErrorObject (''No queryFn found for queryKey: '' @ queryKey))
      | Some entry \<Rightarrow>
          (case queryFn entry of
             None \<Rightarrow> Inl (ErrorObject (''No queryFn found for queryKey: '' @ queryKey))
           | Some fn \<Rightarrow> Inr (directQuery now queryKey fn JUndefined s)))"

definition cancelQuery :: "string \<Rightarrow> QueryCache \<Rightarrow> QueryCache" where
  "cancelQuery queryKey s =
     (let hasExistingPromise = (promisesInFlight s queryKey \<noteq> None)
      in case cache s queryKey of
           None \<Rightarrow> s
         | Some entry \<Rightarrow>
             if hasExistingPromise
             then setAndNotifySubscribers queryKey
                    ((state entry)\<lparr>status := Idle, error := None,
                                   lastUpdatedAt := FORCE_STALE_TIME\<rparr>)
                    (queryFn entry)
                    (s\<lparr>promisesInFlight := (promisesInFlight s)(queryKey := None)\<rparr>)
             else s)"

definition invalidateQuery :: "int \<Rightarrow> string \<Rightarrow> QueryCache \<Rightarrow> QueryCache" where
  "invalidateQuery now queryKey s =
     (case cache s queryKey of
        None \<Rightarrow> s
      | Some entry \<Rightarrow>
          (let s1 = setAndNotifySubscribers queryKey
                      \<lparr>status = Success, data = data (state entry), error = None,
                       lastUpdatedAt = FORCE_STALE_TIME\<rparr>
                      (queryFn entry) s
           in case queryFn entry of
                None \<Rightarrow> s1
              | Some fn \<Rightarrow> backgroundQuery now queryKey fn s1))"

text \<open>
  A promise settling: its continuation, if one is waiting, is taken out of \<open>awaiting\<close>
  and run. \<open>None\<close> when no continuation waits for the promise.
\<close>

definition settle :: "int \<Rightarrow> nat \<Rightarrow> settled \<Rightarrow> QueryCache \<Rightarrow> (completion \<times> QueryCache) option" where
  "settle now promise outcome s =
     (case awaiting s promise of
        None \<Rightarrow> None
      | Some (DirectPending queryKey fn entry) \<Rightarrow>
          Some (directQuery_resume now queryKey fn entry outcome
                  (s\<lparr>awaiting := (awaiting s)(promise := None)\<rparr>))
      | Some (BackgroundPending queryKey fn entry prevLastUpdatedAt) \<Rightarrow>
          Some (backgroundQuery_resume now queryKey fn entry prevLastUpdatedAt outcome
                  (s\<lparr>awaiting := (awaiting s)(promise := None)\<rparr>)))"

subsection \<open>When a background fetch runs\<close>

text \<open>
  \<open>backgroundQuery_proceeds\<close> collects the early returns of \<^verbatim>\<open>backgroundQuery\<close> as the
  source writes them: the method goes on to the fetch when no promise is in flight, the
  entry exists, its status is \<^verbatim>\<open>success\<close> or \<^verbatim>\<open>first-success\<close>,
  \<^verbatim>\<open>differenceInMs > this.staleTime\<close>, and it is not a \<^verbatim>\<open>first-success\<close> with
  \<^verbatim>\<open>differenceInMs\<close> below the buffer window of 250 ms.
\<close>

definition backgroundQuery_proceeds :: "int \<Rightarrow> string \<Rightarrow> QueryCache \<Rightarrow> bool" where
  "backgroundQuery_proceeds now queryKey s =
     (promisesInFlight s queryKey = None \<and>
      (case cache s queryKey of
         None \<Rightarrow> False
       | Some entry \<Rightarrow>
           (status (state entry) = Success \<or> status (state entry) = First_success) \<and>
           now - lastUpdatedAt (state entry) > staleTime s \<and>
           \<not> (status (state entry) = First_success \<and>
              now - lastUpdatedAt (state entry) < 250)))"


subsection \<open>Sequences of operations\<close>

text \<open>
  The public operations, a promise settling and a timer firing, as events; \<open>run\<close>
  performs them one after the other. A \<^verbatim>\<open>refetchQuery\<close> that throws leaves the cache
  as it was.
\<close>

datatype event =
    FetchQuery int string queryFn_ref jsvalue
  | RefetchQuery int string
  | SetData int string jsvalue
  | InvalidateQuery int string
  | CancelQuery string
  | Subscribe string callback_ref
  | Unsubscribe string callback_ref
  | Settle int nat settled
  | FireTimer nat
  | Clear

fun step :: "event \<Rightarrow> QueryCache \<Rightarrow> QueryCache" where
  "step (FetchQuery now queryKey fn initialData) s = fetchQuery now queryKey fn initialData s"
| "step (RefetchQuery now queryKey) s =
     (case refetchQuery now queryKey s of Inl e \<Rightarrow> s | Inr s' \<Rightarrow> s')"
| "step (SetData now queryKey d) s = setData now queryKey d s"
| "step (InvalidateQuery now queryKey) s = invalidateQuery now queryKey s"
| "step (CancelQuery queryKey) s = cancelQuery queryKey s"
| "step (Subscribe queryKey callback) s = subscribe queryKey callback s"
| "step (Unsubscribe queryKey callback) s = unsubscribe queryKey callback s"
| "step (Settle now promise outcome) s =
     (case settle now promise outcome s of None \<Rightarrow> s | Some (c, s') \<Rightarrow> s')"
| "step (FireTimer h) s = fireTimer h s"
| "step Clear s = clear s"

fun run :: "event list \<Rightarrow> QueryCache \<Rightarrow> QueryCache" where
  "run [] s = s"
| "run (e # es) s = run es (step e s)"

subsection \<open>The payload of a state\<close>

text \<open>
  \<open>carries_data\<close>: the value is neither \<^verbatim>\<open>undefined\<close> nor \<^verbatim>\<open>null\<close>.
  \<open>payload_invariant\<close> is the invariant in the words of the specification: the three
  populated statuses carry data, the other three carry none. \<open>payload_ok\<close> is what the
  types of \<^verbatim>\<open>query-types.ts\<close> declare: the same with \<^verbatim>\<open>idle\<close> left free, since
  \<^verbatim>\<open>IdleQueryState\<close> has \<^verbatim>\<open>data: TData | undefined\<close>.
\<close>

definition carries_data :: "jsvalue \<Rightarrow> bool" where
  "carries_data d = (d \<noteq> JUndefined \<and> d \<noteq> JNull)"

definition payload_invariant :: "QueryState \<Rightarrow> bool" where
  "payload_invariant st =
     (case status st of
        First_success \<Rightarrow> carries_data (data st)
      | Success \<Rightarrow> carries_data (data st)
      | Fetching \<Rightarrow> carries_data (data st)
      | Loading \<Rightarrow> data st = JUndefined
      | Idle \<Rightarrow> data st = JUndefined
      | Error \<Rightarrow> data st = JUndefined)"

definition payload_ok :: "QueryState \<Rightarrow> bool" where
  "payload_ok st =
     (case status st of
        First_success \<Rightarrow> carries_data (data st)
      | Success \<Rightarrow> carries_data (data st)
      | Fetching \<Rightarrow> carries_data (data st)
      | Loading \<Rightarrow> data st = JUndefined
      | Idle \<Rightarrow> True
      | Error \<Rightarrow> data st = JUndefined)"

text \<open>
  The events whose payloads are data: a fetch function resolves with a value, \<^verbatim>\<open>setData\<close>
  is given one, \<^verbatim>\<open>initialData\<close> is a value or absent. \<open>invalidate_has_data\<close> asks in
  addition that \<^verbatim>\<open>invalidateQuery\<close> is called on a key that is absent or holds data.
\<close>

fun event_carries_data :: "event \<Rightarrow> bool" where
  "event_carries_data (FetchQuery now queryKey fn initialData) = (initialData \<noteq> JNull)"
| "event_carries_data (SetData now queryKey d) = carries_data d"
| "event_carries_data (Settle now promise (Resolved d)) = carries_data d"
| "event_carries_data e = True"

fun invalidate_has_data :: "event \<Rightarrow> QueryCache \<Rightarrow> bool" where
  "invalidate_has_data (InvalidateQuery now queryKey) s =
     (case cache s queryKey of None \<Rightarrow> True | Some entry \<Rightarrow> carries_data (data (state entry)))"
| "invalidate_has_data e s = True"

fun admissible :: "event list \<Rightarrow> QueryCache \<Rightarrow> bool" where
  "admissible [] s = True"
| "admissible (e # es) s =
     (event_carries_data e \<and> invalidate_has_data e s \<and> admissible es (step e s))"

text \<open>
  What the payload invariant needs of the whole cache: every entry is \<open>payload_ok\<close>, and
  every background continuation holds an entry with data.
\<close>

definition cache_payload_ok :: "QueryCache \<Rightarrow> bool" where
  "cache_payload_ok s =
     ((\<forall>k entry. cache s k = Some entry \<longrightarrow> payload_ok (state entry)) \<and>
      (\<forall>p k fn entry t. awaiting s p = Some (BackgroundPending k fn entry t) \<longrightarrow>
         carries_data (data (state entry))))"

subsection \<open>Timer handles\<close>

text \<open>
  \<^verbatim>\<open>setTimeout\<close> never hands out a handle twice: an armed timer and a recorded handle are
  below \<open>nextTimer\<close>, and the handle recorded for a key is that of a timer armed for the
  same key, if it is still armed.
\<close>

definition timers_wf :: "QueryCache \<Rightarrow> bool" where
  "timers_wf s =
     ((\<forall>h k d. timers s h = Some (k, d) \<longrightarrow> h < nextTimer s) \<and>
      (\<forall>k h. gcTimeouts s k = Some h \<longrightarrow> h < nextTimer s) \<and>
      (\<forall>k h k' d. gcTimeouts s k = Some h \<longrightarrow> timers s h = Some (k', d) \<longrightarrow> k' = k))"

text \<open>
  \<open>same_at k' s s'\<close>: everything the cache and the runtime hold for the key \<open>k'\<close> is in
  \<open>s'\<close> as in \<open>s\<close>, and no subscriber of \<open>k'\<close> was called in between.
\<close>

definition same_at :: "string \<Rightarrow> QueryCache \<Rightarrow> QueryCache \<Rightarrow> bool" where
  "same_at k' s s' =
     (cache s' k' = cache s k' \<and>
      subscribers s' k' = subscribers s k' \<and>
      promisesInFlight s' k' = promisesInFlight s k' \<and>
      gcTimeouts s' k' = gcTimeouts s k' \<and>
      (\<forall>h d. (timers s' h = Some (k', d)) = (timers s h = Some (k', d))) \<and>
      filter (\<lambda>(k, callback). k = k') (notified s') = filter (\<lambda>(k, callback). k = k') (notified s))"

text \<open>The key a waiting continuation was started for (its \<^verbatim>\<open>queryKey\<close>).\<close>

fun pending_key :: "pending \<Rightarrow> string" where
  "pending_key (DirectPending queryKey fn entry) = queryKey"
| "pending_key (BackgroundPending queryKey fn entry prevLastUpdatedAt) = queryKey"

section \<open>Mutations\<close>

text \<open>
  \<^verbatim>\<open>useMutation\<close>'s \<^verbatim>\<open>mutate\<close>. The mutation function and the optional callbacks
  are given by what they return or throw; \<^verbatim>\<open>mutate\<close> yields the trace of what it did, in
  order, and how its promise completes. \<open>mutate_try\<close> is the \<^verbatim>\<open>try\<close> block, yielding
  its part of the trace, the value of \<^verbatim>\<open>context\<close> when it ends and what it returned
  or threw (\<open>mutate_after_onMutate\<close> is the block from \<^verbatim>\<open>setState\<close> on);
  \<open>mutate_catch\<close> is the \<^verbatim>\<open>catch\<close> block.
\<close>

datatype mutation_status = MIdle | MLoading | MError | MSuccess













section \<open>Example runs\<close>

text \<open>
  A cache with the default configuration; the same after a first \<^verbatim>\<open>fetchQuery\<close> for
  \<^verbatim>\<open>'key'\<close> at time 1000, whose fetch is outstanding as promise 0; and after that fetch
  resolved with \<^verbatim>\<open>'good data'\<close> at time 1010.
\<close>

definition ex_fresh :: QueryCache where
  "ex_fresh = new_QueryCache None None"

definition ex_loading :: QueryCache where
  "ex_loading = fetchQuery 1000 ''key'' 7 JUndefined ex_fresh"

definition ex_loaded :: QueryCache where
  "ex_loaded = run [Settle 1010 0 (Resolved (JStr ''good data''))] ex_loading"



definition ex_failed :: QueryCache where
  "ex_failed = run [Settle 1010 0 (Rejected (ThrownError (ErrorObject ''load failed'')))] ex_loading"





text \<open>
  Two keys in one cache. \<^verbatim>\<open>'other'\<close> has a subscriber, a first fetch in flight
  (promise 0) and timer 1 armed by an earlier unsubscription; \<^verbatim>\<open>'key'\<close> has a
  subscriber, data, a background fetch in flight (promise 2) and timer 2 armed.
\<close>

definition ex_two_keys :: QueryCache where
  "ex_two_keys =
     run [Subscribe ''other'' 1, Unsubscribe ''other'' 1, Subscribe ''other'' 3,
          FetchQuery 1000 ''other'' 8 JUndefined,
          Subscribe ''key'' 4, FetchQuery 1000 ''key'' 7 JUndefined,
          Settle 1010 1 (Resolved (JStr ''data'')),
          FetchQuery 2000 ''key'' 7 JUndefined,
          Unsubscribe ''key'' 4, Subscribe ''key'' 5] (new_QueryCache None None)"

section \<open>Properties\<close>

subsection \<open>What each method does to the fields\<close>

lemma setAndNotifySubscribers_fields [simp]:
  "cache (setAndNotifySubscribers k st fn s) = (cache s)(k \<mapsto> \<lparr>state = st, queryFn = fn\<rparr>)"
  "promisesInFlight (setAndNotifySubscribers k st fn s) = promisesInFlight s"
  "subscribers (setAndNotifySubscribers k st fn s) = subscribers s"
  "gcTimeouts (setAndNotifySubscribers k st fn s) = gcTimeouts s"
  "gcQueue (setAndNotifySubscribers k st fn s) = gcQueue s"
  "gcTime (setAndNotifySubscribers k st fn s) = gcTime s"
  "staleTime (setAndNotifySubscribers k st fn s) = staleTime s"
  "timers (setAndNotifySubscribers k st fn s) = timers s"
  "nextTimer (setAndNotifySubscribers k st fn s) = nextTimer s"
  "nextPromise (setAndNotifySubscribers k st fn s) = nextPromise s"
  "awaiting (setAndNotifySubscribers k st fn s) = awaiting s"
  "queryFnCalls (setAndNotifySubscribers k st fn s) = queryFnCalls s"
  by (simp_all add: setAndNotifySubscribers_def notifySubscribers_def set_entry_def
      split: option.splits)

lemma setAndNotifySubscribers_notified [simp]:
  "notified (setAndNotifySubscribers k st fn s) =
     notified s @ map (Pair k) (case subscribers s k of None \<Rightarrow> [] | Some subs \<Rightarrow> subs)"
  by (simp add: setAndNotifySubscribers_def notifySubscribers_def set_entry_def
      split: option.splits)

lemma call_queryFn_fields [simp]:
  "cache (call_queryFn k fn c s) = cache s"
  "promisesInFlight (call_queryFn k fn c s) = (promisesInFlight s)(k \<mapsto> nextPromise s)"
  "subscribers (call_queryFn k fn c s) = subscribers s"
  "gcTimeouts (call_queryFn k fn c s) = gcTimeouts s"
  "gcQueue (call_queryFn k fn c s) = gcQueue s"
  "gcTime (call_queryFn k fn c s) = gcTime s"
  "staleTime (call_queryFn k fn c s) = staleTime s"
  "timers (call_queryFn k fn c s) = timers s"
  "nextTimer (call_queryFn k fn c s) = nextTimer s"
  "nextPromise (call_queryFn k fn c s) = Suc (nextPromise s)"
  "awaiting (call_queryFn k fn c s) = (awaiting s)(nextPromise s \<mapsto> c)"
  "queryFnCalls (call_queryFn k fn c s) = queryFnCalls s @ [(k, fn)]"
  "notified (call_queryFn k fn c s) = notified s"
  by (simp_all add: call_queryFn_def Let_def)

lemma finallyCb_fields [simp]:
  "cache (finallyCb k s) = cache s"
  "promisesInFlight (finallyCb k s) = (promisesInFlight s)(k := None)"
  "subscribers (finallyCb k s) = subscribers s"
  "gcTimeouts (finallyCb k s) = gcTimeouts s"
  "gcQueue (finallyCb k s) = gcQueue s"
  "gcTime (finallyCb k s) = gcTime s"
  "staleTime (finallyCb k s) = staleTime s"
  "timers (finallyCb k s) = timers s"
  "nextTimer (finallyCb k s) = nextTimer s"
  "nextPromise (finallyCb k s) = nextPromise s"
  "awaiting (finallyCb k s) = awaiting s"
  "queryFnCalls (finallyCb k s) = queryFnCalls s"
  "notified (finallyCb k s) = notified s"
  by (simp_all add: finallyCb_def)

lemma new_QueryCache_fields [simp]:
  "cache (new_QueryCache g st) = Map.empty"
  "promisesInFlight (new_QueryCache g st) = Map.empty"
  "subscribers (new_QueryCache g st) = Map.empty"
  "gcTimeouts (new_QueryCache g st) = Map.empty"
  "gcQueue (new_QueryCache g st) = {}"
  "gcTime (new_QueryCache g st) = (case g of None \<Rightarrow> DEFAULT_GC_TIME | Some t \<Rightarrow> t)"
  "staleTime (new_QueryCache g st) = (case st of None \<Rightarrow> DEFAULT_STALE_TIME | Some t \<Rightarrow> t)"
  "timers (new_QueryCache g st) = Map.empty"
  "nextTimer (new_QueryCache g st) = 1"
  "nextPromise (new_QueryCache g st) = 0"
  "awaiting (new_QueryCache g st) = Map.empty"
  "queryFnCalls (new_QueryCache g st) = []"
  "notified (new_QueryCache g st) = []"
  by (simp_all add: new_QueryCache_def)

subsection \<open>A fetch in flight\<close>

lemma directQuery_in_flight: "promisesInFlight s k \<noteq> None \<Longrightarrow> directQuery now k fn init s = s"
  by (simp add: directQuery_def)

lemma backgroundQuery_in_flight: "promisesInFlight s k \<noteq> None \<Longrightarrow> backgroundQuery now k fn s = s"
  by (auto simp add: backgroundQuery_def split: option.splits)

lemma fetchQuery_in_flight: "promisesInFlight s k \<noteq> None \<Longrightarrow> fetchQuery now k fn init s = s"
  by (simp add: fetchQuery_def directQuery_in_flight backgroundQuery_in_flight split: option.splits)

lemma fetchQuery_fold_in_flight:
  "promisesInFlight s k \<noteq> None \<Longrightarrow>
   fold (\<lambda>(now, fn, init). fetchQuery now k fn init) calls s = s"
  by (induction calls) (auto simp: fetchQuery_in_flight)

lemma directQuery_starts:
  "promisesInFlight s k = None \<Longrightarrow> \<not> entry_is_loading (cache s k) \<Longrightarrow>
   init = JUndefined \<or> entry_data (cache s k) \<noteq> JUndefined \<Longrightarrow>
   directQuery now k fn init s =
     call_queryFn k fn (DirectPending k fn (cache s k))
       (setAndNotifySubscribers k
          \<lparr>status = Loading, data = JUndefined, error = None, lastUpdatedAt = now\<rparr> None s)"
  by (auto simp add: directQuery_def Let_def)

lemma fetchQuery_fresh:
  "cache s k = None \<Longrightarrow> promisesInFlight s k = None \<Longrightarrow>
   queryFnCalls (fetchQuery now k fn JUndefined s) = queryFnCalls s @ [(k, fn)] \<and>
   promisesInFlight (fetchQuery now k fn JUndefined s) k = Some (nextPromise s)"
  by (simp add: fetchQuery_def directQuery_starts entry_is_loading_def)

subsection \<open>The gate of the background fetch\<close>

lemma backgroundQuery_skips:
  "\<not> backgroundQuery_proceeds now k s \<Longrightarrow> backgroundQuery now k fn s = s"
  by (auto simp add: backgroundQuery_def backgroundQuery_proceeds_def getDifferenceInMs_def
      FIRST_FETCH_SUCCESS_BACKGROUND_FETCH_BUFFER_WINDOW_MS_def Let_def split: option.splits)

lemma backgroundQuery_fetches:
  "backgroundQuery_proceeds now k s \<Longrightarrow> cache s k = Some entry \<Longrightarrow>
   backgroundQuery now k fn s =
     call_queryFn k fn (BackgroundPending k fn entry (lastUpdatedAt (state entry)))
       (setAndNotifySubscribers k
          \<lparr>status = Fetching, data = data (state entry), error = None, lastUpdatedAt = now\<rparr>
          None s)"
  by (auto simp add: backgroundQuery_def backgroundQuery_proceeds_def getDifferenceInMs_def
      FIRST_FETCH_SUCCESS_BACKGROUND_FETCH_BUFFER_WINDOW_MS_def Let_def split: option.splits)

lemma backgroundQuery_proceeds_entry:
  "backgroundQuery_proceeds now k s \<Longrightarrow> \<exists>entry. cache s k = Some entry"
  by (auto simp add: backgroundQuery_proceeds_def split: option.splits)

lemma backgroundQuery_calls:
  "queryFnCalls (backgroundQuery now k fn s) =
     (if backgroundQuery_proceeds now k s then queryFnCalls s @ [(k, fn)] else queryFnCalls s)"
proof (cases "backgroundQuery_proceeds now k s")
  case True
  then obtain entry where "cache s k = Some entry"
    using backgroundQuery_proceeds_entry by blast
  with True show ?thesis by (simp add: backgroundQuery_fetches)
next
  case False
  then show ?thesis by (simp add: backgroundQuery_skips)
qed




lemma ex_loading_eq:
  "ex_loading =
     call_queryFn ''key'' 7 (DirectPending ''key'' 7 None)
       (setAndNotifySubscribers ''key''
          \<lparr>status = Loading, data = JUndefined, error = None, lastUpdatedAt = 1000\<rparr> None ex_fresh)"
  by (simp add: ex_loading_def ex_fresh_def fetchQuery_def directQuery_starts entry_is_loading_def)

lemma ex_loaded_fields:
  "cache ex_loaded ''key'' =
     Some \<lparr>state = \<lparr>status = First_success, data = JStr ''good data'', error = None,
                    lastUpdatedAt = 1010\<rparr>, queryFn = Some 7\<rparr>"
  "promisesInFlight ex_loaded ''key'' = None"
  "staleTime ex_loaded = 0"
  "queryFnCalls ex_loaded = [(''key'', 7)]"
  "awaiting ex_loaded = Map.empty"
  "nextPromise ex_loaded = 1"
  "subscribers ex_loaded = Map.empty"
  "notified ex_loaded = []"
  by (simp_all add: ex_loaded_def ex_loading_eq ex_fresh_def settle_def directQuery_resume_def
      entry_data_def DEFAULT_STALE_TIME_def)





subsection \<open>Deduplication\<close>

lemma directQuery_calls:
  assumes "queryFnCalls (directQuery now k fn init s) \<noteq> queryFnCalls s"
  shows "queryFnCalls (directQuery now k fn init s) = queryFnCalls s @ [(k, fn)] \<and>
         promisesInFlight (directQuery now k fn init s) k = Some (nextPromise s)"
  using assms by (auto simp add: directQuery_def Let_def split: if_splits)

lemma backgroundQuery_registers:
  assumes "queryFnCalls (backgroundQuery now k fn s) \<noteq> queryFnCalls s"
  shows "queryFnCalls (backgroundQuery now k fn s) = queryFnCalls s @ [(k, fn)] \<and>
         promisesInFlight (backgroundQuery now k fn s) k = Some (nextPromise s)"
proof -
  from assms have c: "backgroundQuery_proceeds now k s"
    by (simp add: backgroundQuery_calls split: if_splits)
  then obtain entry where "cache s k = Some entry"
    using backgroundQuery_proceeds_entry by blast
  with c show ?thesis by (simp add: backgroundQuery_fetches)
qed

lemma fetchQuery_calls:
  assumes "queryFnCalls (fetchQuery now k fn init s) \<noteq> queryFnCalls s"
  shows "queryFnCalls (fetchQuery now k fn init s) = queryFnCalls s @ [(k, fn)] \<and>
         promisesInFlight (fetchQuery now k fn init s) k \<noteq> None"
  using assms directQuery_calls[of now k fn init s] backgroundQuery_registers[of now k fn s]
  by (auto simp add: fetchQuery_def split: option.splits)

text \<open>
  C1. The in-flight registry is a map from keys to promises, so a key has at most one
  registered promise. While a promise is registered for a key, \<^verbatim>\<open>directQuery\<close> and
  \<^verbatim>\<open>backgroundQuery\<close> return with the cache unchanged, so without calling the fetch
  function, and so does any number of \<^verbatim>\<open>fetchQuery\<close> calls for that key. Hence when a
  \<^verbatim>\<open>fetchQuery\<close> starts a fetch, as the first one for a new key does when no initial
  data is given, any further \<^verbatim>\<open>fetchQuery\<close> calls for the key made before the fetch
  settles add no call: the fetch function is invoked exactly once.
\<close>

theorem dedup:
  "(promisesInFlight s k \<noteq> None \<longrightarrow>
      directQuery now k fn init s = s \<and> backgroundQuery now k fn s = s \<and>
      fold (\<lambda>(now, fn, init). fetchQuery now k fn init) calls s = s) \<and>
   (queryFnCalls (fetchQuery now k fn init s) \<noteq> queryFnCalls s \<longrightarrow>
      queryFnCalls (fold (\<lambda>(now, fn, init). fetchQuery now k fn init) calls
                      (fetchQuery now k fn init s))
        = queryFnCalls s @ [(k, fn)]) \<and>
   (cache s k = None \<and> promisesInFlight s k = None \<longrightarrow>
      queryFnCalls (fetchQuery now k fn JUndefined s) \<noteq> queryFnCalls s) \<and>
   card {p. promisesInFlight s k = Some p} \<le> 1"
proof -
  have "card {p. promisesInFlight s k = Some p} \<le> 1"
    by (cases "promisesInFlight s k") simp_all
  moreover have "queryFnCalls (fetchQuery now k fn init s) \<noteq> queryFnCalls s \<longrightarrow>
      queryFnCalls (fold (\<lambda>(now, fn, init). fetchQuery now k fn init) calls
                      (fetchQuery now k fn init s))
        = queryFnCalls s @ [(k, fn)]"
    using fetchQuery_calls[of now k fn init s]
    by (auto simp add: fetchQuery_fold_in_flight)
  ultimately show ?thesis
    using fetchQuery_fresh[of s k now fn]
    by (auto simp: directQuery_in_flight backgroundQuery_in_flight fetchQuery_fold_in_flight)
qed

lemma ex_loading_in_flight: "promisesInFlight ex_loading ''key'' = Some 0"
  by (simp add: ex_loading_eq ex_fresh_def)

theorem dedup_witness:
  "promisesInFlight ex_loading ''key'' \<noteq> None \<and>
   directQuery 1001 ''key'' 8 (JStr ''initial data'') ex_loading = ex_loading \<and>
   backgroundQuery 1001 ''key'' 8 ex_loading = ex_loading \<and>
   fold (\<lambda>(now, fn, init). fetchQuery now ''key'' fn init)
     [(1001, 8, JUndefined), (1002, 7, JStr ''initial data'')] ex_loading = ex_loading \<and>
   cache ex_fresh ''key'' = None \<and> promisesInFlight ex_fresh ''key'' = None \<and>
   queryFnCalls (fetchQuery 1000 ''key'' 7 JUndefined ex_fresh) \<noteq> queryFnCalls ex_fresh \<and>
   queryFnCalls (fold (\<lambda>(now, fn, init). fetchQuery now ''key'' fn init)
                   [(1001, 8, JUndefined), (1002, 7, JStr ''initial data'')]
                   (fetchQuery 1000 ''key'' 7 JUndefined ex_fresh)) = [(''key'', 7)] \<and>
   queryFnCalls (backgroundQuery 2000 ''key'' 7 ex_loaded) \<noteq> queryFnCalls ex_loaded \<and>
   queryFnCalls (fold (\<lambda>(now, fn, init). fetchQuery now ''key'' fn init)
                   [(2001, 8, JUndefined), (2002, 7, JUndefined)]
                   (fetchQuery 2000 ''key'' 7 JUndefined ex_loaded)) = [(''key'', 7), (''key'', 7)]"
proof -
  have bg: "fetchQuery 2000 ''key'' 7 JUndefined ex_loaded = backgroundQuery 2000 ''key'' 7 ex_loaded"
    by (simp add: fetchQuery_def ex_loaded_fields)
  have c: "queryFnCalls (backgroundQuery 2000 ''key'' 7 ex_loaded) \<noteq> queryFnCalls ex_loaded"
    by (simp add: backgroundQuery_calls backgroundQuery_proceeds_def ex_loaded_fields)
  show ?thesis
    using c
      dedup[of ex_loading "''key''" 1001 8 "JStr ''initial data''"
          "[(1001, 8, JUndefined), (1002, 7, JStr ''initial data'')]"]
      dedup[of ex_fresh "''key''" 1000 7 JUndefined
          "[(1001, 8, JUndefined), (1002, 7, JStr ''initial data'')]"]
      dedup[of ex_loaded "''key''" 2000 7 JUndefined "[(2001, 8, JUndefined), (2002, 7, JUndefined)]"]
    by (simp add: ex_loading_in_flight bg ex_loaded_fields) (simp add: ex_fresh_def)
qed

subsection \<open>A fetch settling\<close>

lemma backgroundQuery_awaiting:
  assumes "cache s k = Some entry"
      and "queryFnCalls (backgroundQuery now k fn s) \<noteq> queryFnCalls s"
  shows "awaiting (backgroundQuery now k fn s) (nextPromise s) =
           Some (BackgroundPending k fn entry (lastUpdatedAt (state entry)))"
    and "status (state entry) = Success \<or> status (state entry) = First_success"
proof -
  from assms(2) have c: "backgroundQuery_proceeds now k s"
    by (simp add: backgroundQuery_calls split: if_splits)
  with assms(1) show "awaiting (backgroundQuery now k fn s) (nextPromise s) =
           Some (BackgroundPending k fn entry (lastUpdatedAt (state entry)))"
    by (simp add: backgroundQuery_fetches)
  from c assms(1) show "status (state entry) = Success \<or> status (state entry) = First_success"
    by (simp add: backgroundQuery_proceeds_def)
qed

lemma settle_background_rejected:
  "awaiting s p = Some (BackgroundPending k fn entry t) \<Longrightarrow>
   settle now p (Rejected e) s =
     Some (Fulfilled,
           setAndNotifySubscribers k
             \<lparr>status = Success, data = data (state entry), error = None, lastUpdatedAt = t\<rparr>
             (Some fn) (finallyCb k (s\<lparr>awaiting := (awaiting s)(p := None)\<rparr>)))"
  by (simp add: settle_def backgroundQuery_resume_def)

text \<open>
  C2. When \<^verbatim>\<open>backgroundQuery\<close> starts a fetch on an entry (then in status
  \<^verbatim>\<open>success\<close> or \<^verbatim>\<open>first-success\<close>) and the fetch function later rejects, in
  whatever state \<open>s\<close> the cache is by then, the continuation leaves the entry in status
  \<^verbatim>\<open>success\<close> with the data and the \<^verbatim>\<open>lastUpdatedAt\<close> the entry had when the fetch
  started, clears the in-flight registration, and the method's own promise is fulfilled:
  the rejection goes no further.
\<close>

theorem background_failure_restores:
  assumes "cache s0 k = Some entry"
      and "queryFnCalls (backgroundQuery now0 k fn s0) \<noteq> queryFnCalls s0"
      and "awaiting s (nextPromise s0) = awaiting (backgroundQuery now0 k fn s0) (nextPromise s0)"
  shows "\<exists>s'. settle now (nextPromise s0) (Rejected e) s = Some (Fulfilled, s') \<and>
              getState k s' =
                Some \<lparr>status = Success, data = data (state entry), error = None,
                      lastUpdatedAt = lastUpdatedAt (state entry)\<rparr> \<and>
              promisesInFlight s' k = None \<and>
              (status (state entry) = Success \<or> status (state entry) = First_success)"
proof -
  have "awaiting s (nextPromise s0) =
          Some (BackgroundPending k fn entry (lastUpdatedAt (state entry)))"
    using assms by (simp add: backgroundQuery_awaiting(1))
  then show ?thesis
    using backgroundQuery_awaiting(2)[OF assms(1,2)]
    by (simp add: settle_background_rejected getState_def)
qed

lemma ex_loaded_background:
  "backgroundQuery 2000 ''key'' 7 ex_loaded =
     call_queryFn ''key'' 7
       (BackgroundPending ''key'' 7 (the (cache ex_loaded ''key'')) 1010)
       (setAndNotifySubscribers ''key''
          \<lparr>status = Fetching, data = JStr ''good data'', error = None, lastUpdatedAt = 2000\<rparr>
          None ex_loaded)"
proof -
  have "backgroundQuery_proceeds 2000 ''key'' ex_loaded"
    by (simp add: backgroundQuery_proceeds_def ex_loaded_fields)
  then show ?thesis
    using backgroundQuery_fetches[of 2000 "''key''" ex_loaded "the (cache ex_loaded ''key'')" 7]
    by (simp add: ex_loaded_fields)
qed

theorem background_failure_restores_witness:
  "cache ex_loaded ''key'' =
     Some \<lparr>state = \<lparr>status = First_success, data = JStr ''good data'', error = None,
                    lastUpdatedAt = 1010\<rparr>, queryFn = Some 7\<rparr> \<and>
   queryFnCalls (backgroundQuery 2000 ''key'' 7 ex_loaded) \<noteq> queryFnCalls ex_loaded \<and>
   (\<exists>s'. settle 2010 (nextPromise ex_loaded)
            (Rejected (ThrownError (ErrorObject ''failed refresh'')))
            (backgroundQuery 2000 ''key'' 7 ex_loaded) = Some (Fulfilled, s') \<and>
         getState ''key'' s' =
           Some \<lparr>status = Success, data = JStr ''good data'', error = None,
                 lastUpdatedAt = 1010\<rparr> \<and>
         promisesInFlight s' ''key'' = None)"
proof -
  have a: "cache ex_loaded ''key'' =
     Some \<lparr>state = \<lparr>status = First_success, data = JStr ''good data'', error = None,
                    lastUpdatedAt = 1010\<rparr>, queryFn = Some 7\<rparr>"
    by (simp add: ex_loaded_fields)
  have b: "queryFnCalls (backgroundQuery 2000 ''key'' 7 ex_loaded) \<noteq> queryFnCalls ex_loaded"
    by (simp add: ex_loaded_background)
  show ?thesis
    using a b background_failure_restores[OF a b refl, of 2010
        "ThrownError (ErrorObject ''failed refresh'')"]
    by simp
qed

lemma settle_direct:
  "awaiting s p = Some (DirectPending k fn entry) \<Longrightarrow>
   settle now p outcome s =
     Some (directQuery_resume now k fn entry outcome (s\<lparr>awaiting := (awaiting s)(p := None)\<rparr>))"
  by (simp add: settle_def)

lemma directQuery_awaiting:
  assumes "queryFnCalls (directQuery now k fn init s) \<noteq> queryFnCalls s"
  shows "awaiting (directQuery now k fn init s) (nextPromise s) =
           Some (DirectPending k fn (cache s k))"
  using assms by (auto simp add: directQuery_def Let_def split: if_splits)

text \<open>
  C3, as the code has it. When the fetch function of a direct fetch rejects with \<open>e\<close>, the
  continuation clears the in-flight registration, stores status \<^verbatim>\<open>error\<close> with \<open>e\<close>
  coerced to an \<^verbatim>\<open>Error\<close>, no data and the force-stale timestamp, keeps the fetch
  function, and calls the subscribers of the key; the promise of \<^verbatim>\<open>directQuery\<close> is
  fulfilled, the failure showing in the state only.
\<close>

theorem direct_failure:
  assumes "queryFnCalls (directQuery now0 k fn init s0) \<noteq> queryFnCalls s0"
      and "awaiting s (nextPromise s0) = awaiting (directQuery now0 k fn init s0) (nextPromise s0)"
  shows "\<exists>s'. settle now (nextPromise s0) (Rejected e) s = Some (Fulfilled, s') \<and>
              cache s' k =
                Some \<lparr>state = \<lparr>status = Error, data = JUndefined, error = Some (toError e),
                               lastUpdatedAt = FORCE_STALE_TIME\<rparr>,
                      queryFn = Some fn\<rparr> \<and>
              promisesInFlight s' k = None \<and>
              notified s' =
                notified s @ map (Pair k) (case subscribers s k of None \<Rightarrow> [] | Some subs \<Rightarrow> subs)"
proof -
  have "awaiting s (nextPromise s0) = Some (DirectPending k fn (cache s0 k))"
    using assms by (simp add: directQuery_awaiting)
  then show ?thesis
    by (simp add: settle_direct directQuery_resume_def)
qed

lemma ex_loading_fields:
  "queryFnCalls ex_loading = [(''key'', 7)]"
  "awaiting ex_loading 0 = Some (DirectPending ''key'' 7 None)"
  "notified ex_loading = []"
  "subscribers ex_loading = Map.empty"
  by (simp_all add: ex_loading_eq ex_fresh_def)

theorem direct_failure_witness:
  "queryFnCalls (directQuery 1000 ''key'' 7 JUndefined ex_fresh) \<noteq> queryFnCalls ex_fresh \<and>
   (\<exists>s'. settle 1010 (nextPromise ex_fresh) (Rejected (ThrownValue (JStr ''load failed'')))
            (directQuery 1000 ''key'' 7 JUndefined ex_fresh) = Some (Fulfilled, s') \<and>
         cache s' ''key'' =
           Some \<lparr>state = \<lparr>status = Error, data = JUndefined,
                          error = Some (ErrorOfString (JStr ''load failed'')),
                          lastUpdatedAt = FORCE_STALE_TIME\<rparr>,
                 queryFn = Some 7\<rparr> \<and>
         promisesInFlight s' ''key'' = None)"
proof -
  have a: "queryFnCalls (directQuery 1000 ''key'' 7 JUndefined ex_fresh) \<noteq> queryFnCalls ex_fresh"
    by (simp add: ex_fresh_def directQuery_starts entry_is_loading_def)
  show ?thesis
    using a direct_failure[OF a refl, of 1010 "ThrownValue (JStr ''load failed'')"]
    by auto
qed

text \<open>
  The claim C3 as stated fails: the direct fetch of \<open>ex_loading\<close> rejects, and the promise
  of the method is fulfilled, not rejected.
\<close>

theorem direct_failure_not_rethrown:
  "map_option fst (settle 1010 0 (Rejected (ThrownError (ErrorObject ''load failed''))) ex_loading)
     = Some Fulfilled"
  by (simp add: settle_direct[of _ _ "''key''" 7 None] ex_loading_fields directQuery_resume_def)

text \<open>
  C8, as the code has it. When the fetch function of a direct fetch resolves with \<open>d\<close>,
  the continuation clears the in-flight registration and stores \<open>d\<close> with the current
  time and the fetch function. The status is decided by the entry \<^verbatim>\<open>directQuery\<close> read
  when it was called, not by the history of the key: \<^verbatim>\<open>first-success\<close> when there was
  no entry or the entry held no data, \<^verbatim>\<open>success\<close> when it held data that is truthy.
\<close>

theorem direct_success:
  assumes "queryFnCalls (directQuery now0 k fn init s0) \<noteq> queryFnCalls s0"
      and "awaiting s (nextPromise s0) = awaiting (directQuery now0 k fn init s0) (nextPromise s0)"
      and "entry_data (cache s0 k) = JUndefined \<or> truthy (entry_data (cache s0 k))"
  shows "\<exists>s'. settle now (nextPromise s0) (Resolved d) s = Some (Fulfilled, s') \<and>
              cache s' k =
                Some \<lparr>state = \<lparr>status = (if entry_data (cache s0 k) = JUndefined
                                         then First_success else Success),
                               data = d, error = None, lastUpdatedAt = now\<rparr>,
                      queryFn = Some fn\<rparr> \<and>
              promisesInFlight s' k = None"
proof -
  have "awaiting s (nextPromise s0) = Some (DirectPending k fn (cache s0 k))"
    using assms(1,2) by (simp add: directQuery_awaiting)
  then show ?thesis
    using assms(3) by (auto simp add: settle_direct directQuery_resume_def)
qed

lemma ex_loaded_refetch:
  "directQuery 2000 ''key'' 7 JUndefined ex_loaded =
     call_queryFn ''key'' 7 (DirectPending ''key'' 7 (cache ex_loaded ''key''))
       (setAndNotifySubscribers ''key''
          \<lparr>status = Loading, data = JUndefined, error = None, lastUpdatedAt = 2000\<rparr> None ex_loaded)"
  by (simp add: directQuery_starts ex_loaded_fields entry_is_loading_def)

theorem direct_success_witness:
  "queryFnCalls (directQuery 1000 ''key'' 7 JUndefined ex_fresh) \<noteq> queryFnCalls ex_fresh \<and>
   entry_data (cache ex_fresh ''key'') = JUndefined \<and>
   (\<exists>s'. settle 1010 (nextPromise ex_fresh) (Resolved (JStr ''good data''))
            (directQuery 1000 ''key'' 7 JUndefined ex_fresh) = Some (Fulfilled, s') \<and>
         cache s' ''key'' =
           Some \<lparr>state = \<lparr>status = First_success, data = JStr ''good data'', error = None,
                          lastUpdatedAt = 1010\<rparr>, queryFn = Some 7\<rparr> \<and>
         promisesInFlight s' ''key'' = None) \<and>
   queryFnCalls (directQuery 2000 ''key'' 7 JUndefined ex_loaded) \<noteq> queryFnCalls ex_loaded \<and>
   truthy (entry_data (cache ex_loaded ''key'')) \<and>
   (\<exists>s'. settle 2010 (nextPromise ex_loaded) (Resolved (JStr ''new data''))
            (directQuery 2000 ''key'' 7 JUndefined ex_loaded) = Some (Fulfilled, s') \<and>
         cache s' ''key'' =
           Some \<lparr>state = \<lparr>status = Success, data = JStr ''new data'', error = None,
                          lastUpdatedAt = 2010\<rparr>, queryFn = Some 7\<rparr> \<and>
         promisesInFlight s' ''key'' = None)"
proof -
  have a: "queryFnCalls (directQuery 1000 ''key'' 7 JUndefined ex_fresh) \<noteq> queryFnCalls ex_fresh"
    by (simp add: ex_fresh_def directQuery_starts entry_is_loading_def)
  have a': "entry_data (cache ex_fresh ''key'') = JUndefined"
    by (simp add: ex_fresh_def entry_data_def)
  have b: "queryFnCalls (directQuery 2000 ''key'' 7 JUndefined ex_loaded) \<noteq> queryFnCalls ex_loaded"
    by (simp add: ex_loaded_refetch)
  have b': "truthy (entry_data (cache ex_loaded ''key''))"
    by (simp add: ex_loaded_fields entry_data_def)
  show ?thesis
    using a a' b b'
      direct_success[OF a refl disjI1[OF a'], of 1010 "JStr ''good data''"]
      direct_success[OF b refl disjI2[OF b'], of 2010 "JStr ''new data''"]
    by (simp add: ex_loaded_fields entry_data_def)
qed

text \<open>
  The claim C8 as stated fails. The key of \<open>ex_loaded\<close> has had data recorded once
  (\<^verbatim>\<open>first-success\<close>); a refetch that fails clears it, and the next refetch that
  succeeds is recorded as \<^verbatim>\<open>first-success\<close> again.
\<close>

theorem first_success_twice:
  "getState ''key'' ex_loaded =
     Some \<lparr>status = First_success, data = JStr ''good data'', error = None, lastUpdatedAt = 1010\<rparr> \<and>
   getState ''key''
     (run [RefetchQuery 2000 ''key'',
           Settle 2010 1 (Rejected (ThrownError (ErrorObject ''failed refetch''))),
           RefetchQuery 3000 ''key'',
           Settle 3010 2 (Resolved (JStr ''new data''))] ex_loaded) =
     Some \<lparr>status = First_success, data = JStr ''new data'', error = None, lastUpdatedAt = 3010\<rparr>"
  by (simp add: getState_def ex_loaded_fields refetchQuery_def ex_loaded_refetch settle_def
      directQuery_resume_def directQuery_def entry_is_loading_def entry_data_def Let_def)

subsection \<open>The payload invariant\<close>

lemma cache_payload_ok_set:
  "cache_payload_ok s \<Longrightarrow> payload_ok st \<Longrightarrow> cache_payload_ok (setAndNotifySubscribers k st fn s)"
  by (simp add: cache_payload_ok_def)

lemma cache_payload_ok_call_direct:
  "cache_payload_ok s \<Longrightarrow> cache_payload_ok (call_queryFn k fn (DirectPending k' fn' entry) s)"
  by (simp add: cache_payload_ok_def)

lemma cache_payload_ok_call_background:
  "cache_payload_ok s \<Longrightarrow> carries_data (data (state entry)) \<Longrightarrow>
   cache_payload_ok (call_queryFn k fn (BackgroundPending k' fn' entry t) s)"
  by (simp add: cache_payload_ok_def)

lemma cache_payload_ok_finallyCb:
  "cache_payload_ok s \<Longrightarrow> cache_payload_ok (finallyCb k s)"
  by (simp add: cache_payload_ok_def)

lemma cache_payload_ok_awaiting_del:
  "cache_payload_ok s \<Longrightarrow> cache_payload_ok (s\<lparr>awaiting := (awaiting s)(p := None)\<rparr>)"
  by (simp add: cache_payload_ok_def)

lemma cache_payload_ok_entry:
  "cache_payload_ok s \<Longrightarrow> cache s k = Some entry \<Longrightarrow> payload_ok (state entry)"
  by (simp add: cache_payload_ok_def)

lemma cache_payload_ok_pending:
  "cache_payload_ok s \<Longrightarrow> awaiting s p = Some (BackgroundPending k fn entry t) \<Longrightarrow>
   carries_data (data (state entry))"
  unfolding cache_payload_ok_def by blast

lemma payload_ok_simps:
  "payload_ok \<lparr>status = Loading, data = JUndefined, error = e, lastUpdatedAt = t\<rparr>"
  "payload_ok \<lparr>status = Error, data = JUndefined, error = e, lastUpdatedAt = t\<rparr>"
  "carries_data d \<Longrightarrow> payload_ok \<lparr>status = Success, data = d, error = e, lastUpdatedAt = t\<rparr>"
  "carries_data d \<Longrightarrow> payload_ok \<lparr>status = First_success, data = d, error = e, lastUpdatedAt = t\<rparr>"
  "carries_data d \<Longrightarrow> payload_ok \<lparr>status = Fetching, data = d, error = e, lastUpdatedAt = t\<rparr>"
  "payload_ok (st\<lparr>status := Idle, error := e, lastUpdatedAt := t\<rparr>)"
  by (simp_all add: payload_ok_def)

lemma cache_payload_ok_directQuery:
  assumes "cache_payload_ok s" and "init \<noteq> JNull"
  shows "cache_payload_ok (directQuery now k fn init s)"
  using assms
  by (auto simp add: directQuery_def Let_def carries_data_def
      intro!: cache_payload_ok_set cache_payload_ok_call_direct payload_ok_simps)

lemma cache_payload_ok_backgroundQuery:
  assumes "cache_payload_ok s"
  shows "cache_payload_ok (backgroundQuery now k fn s)"
proof (cases "backgroundQuery_proceeds now k s")
  case False
  with assms show ?thesis by (simp add: backgroundQuery_skips)
next
  case True
  then obtain entry where e: "cache s k = Some entry"
    using backgroundQuery_proceeds_entry by blast
  from True e have "status (state entry) = Success \<or> status (state entry) = First_success"
    by (simp add: backgroundQuery_proceeds_def)
  moreover have "payload_ok (state entry)"
    using assms e by (rule cache_payload_ok_entry)
  ultimately have d: "carries_data (data (state entry))"
    by (auto simp add: payload_ok_def)
  show ?thesis
    using assms d
    by (simp add: backgroundQuery_fetches[OF True e] cache_payload_ok_call_background
        cache_payload_ok_set payload_ok_simps)
qed

lemma cache_payload_ok_directQuery_resume:
  assumes "cache_payload_ok s" and "\<And>d. outcome = Resolved d \<Longrightarrow> carries_data d"
  shows "cache_payload_ok (snd (directQuery_resume now k fn entry outcome s))"
  using assms
  by (cases outcome)
     (auto simp add: directQuery_resume_def
       intro!: cache_payload_ok_set cache_payload_ok_finallyCb payload_ok_simps)

lemma cache_payload_ok_backgroundQuery_resume:
  assumes "cache_payload_ok s" and "\<And>d. outcome = Resolved d \<Longrightarrow> carries_data d"
      and "carries_data (data (state entry))"
  shows "cache_payload_ok (snd (backgroundQuery_resume now k fn entry t outcome s))"
  using assms
  by (cases outcome)
     (auto simp add: backgroundQuery_resume_def
       intro!: cache_payload_ok_set cache_payload_ok_finallyCb payload_ok_simps)

lemma cache_payload_ok_settle:
  assumes "cache_payload_ok s" and "\<And>d. outcome = Resolved d \<Longrightarrow> carries_data d"
      and "settle now p outcome s = Some (c, s')"
  shows "cache_payload_ok s'"
proof (cases "awaiting s p")
  case None
  with assms(3) show ?thesis by (simp add: settle_def)
next
  case (Some pend)
  show ?thesis
  proof (cases pend)
    case (DirectPending k fn entry)
    with Some assms(3)
    have "s' = snd (directQuery_resume now k fn entry outcome
                      (s\<lparr>awaiting := (awaiting s)(p := None)\<rparr>))"
      by (simp add: settle_def)
    then show ?thesis
      using assms(1,2)
      by (simp add: cache_payload_ok_directQuery_resume cache_payload_ok_awaiting_del)
  next
    case (BackgroundPending k fn entry t)
    with Some assms(3)
    have "s' = snd (backgroundQuery_resume now k fn entry t outcome
                      (s\<lparr>awaiting := (awaiting s)(p := None)\<rparr>))"
      by (simp add: settle_def)
    moreover have "carries_data (data (state entry))"
      using assms(1) Some BackgroundPending by (auto dest: cache_payload_ok_pending)
    ultimately show ?thesis
      using assms(1,2)
      by (simp add: cache_payload_ok_backgroundQuery_resume cache_payload_ok_awaiting_del)
  qed
qed

lemma cache_payload_ok_setData:
  "cache_payload_ok s \<Longrightarrow> carries_data d \<Longrightarrow> cache_payload_ok (setData now k d s)"
  by (simp add: setData_def cache_payload_ok_set payload_ok_simps)

lemma cache_payload_ok_cancelQuery:
  "cache_payload_ok s \<Longrightarrow> cache_payload_ok (cancelQuery k s)"
  by (auto simp add: cancelQuery_def Let_def cache_payload_ok_def payload_ok_simps
      split: option.splits)

lemma cache_payload_ok_invalidateQuery:
  assumes "cache_payload_ok s"
      and "case cache s k of None \<Rightarrow> True | Some entry \<Rightarrow> carries_data (data (state entry))"
  shows "cache_payload_ok (invalidateQuery now k s)"
  using assms
  by (auto simp add: invalidateQuery_def Let_def split: option.splits
      intro!: cache_payload_ok_backgroundQuery cache_payload_ok_set payload_ok_simps)

lemma cache_payload_ok_subscribe:
  "cache_payload_ok s \<Longrightarrow> cache_payload_ok (subscribe k cb s)"
  by (simp add: subscribe_def Let_def cache_payload_ok_def)

lemma cache_payload_ok_unsubscribe:
  "cache_payload_ok s \<Longrightarrow> cache_payload_ok (unsubscribe k cb s)"
  by (auto simp add: unsubscribe_def scheduleGC_def clearTimeout_def Let_def cache_payload_ok_def
      split: option.splits)

lemma cache_payload_ok_fireTimer:
  "cache_payload_ok s \<Longrightarrow> cache_payload_ok (fireTimer h s)"
  by (auto simp add: fireTimer_def gcCallback_def cache_payload_ok_def split: option.splits if_splits)

lemma cache_payload_ok_clear:
  "cache_payload_ok s \<Longrightarrow> cache_payload_ok (clear s)"
  by (simp add: clear_def cache_payload_ok_def)

lemma cache_payload_ok_step:
  assumes "cache_payload_ok s" and "event_carries_data e" and "invalidate_has_data e s"
  shows "cache_payload_ok (step e s)"
proof (cases e)
  case (FetchQuery now k fn init)
  with assms show ?thesis
    by (simp add: fetchQuery_def cache_payload_ok_directQuery cache_payload_ok_backgroundQuery
        split: option.splits)
next
  case (RefetchQuery now k)
  with assms show ?thesis
    by (simp add: refetchQuery_def cache_payload_ok_directQuery split: option.splits)
next
  case (SetData now k d)
  with assms show ?thesis by (simp add: cache_payload_ok_setData)
next
  case (InvalidateQuery now k)
  with assms show ?thesis by (simp add: cache_payload_ok_invalidateQuery)
next
  case (CancelQuery k)
  with assms show ?thesis by (simp add: cache_payload_ok_cancelQuery)
next
  case (Subscribe k cb)
  with assms show ?thesis by (simp add: cache_payload_ok_subscribe)
next
  case (Unsubscribe k cb)
  with assms show ?thesis by (simp add: cache_payload_ok_unsubscribe)
next
  case (Settle now p outcome)
  show ?thesis
  proof (cases "settle now p outcome s")
    case None
    with Settle assms(1) show ?thesis by simp
  next
    case (Some r)
    obtain c s' where r: "r = (c, s')" by (cases r)
    have "\<And>d. outcome = Resolved d \<Longrightarrow> carries_data d"
      using assms(2) Settle by simp
    with assms(1) Some r have "cache_payload_ok s'"
      by (auto intro: cache_payload_ok_settle)
    with Settle Some r show ?thesis by simp
  qed
next
  case (FireTimer h)
  with assms show ?thesis by (simp add: cache_payload_ok_fireTimer)
next
  case Clear
  with assms show ?thesis by (simp add: cache_payload_ok_clear)
qed

lemma cache_payload_ok_run:
  "cache_payload_ok s \<Longrightarrow> admissible es s \<Longrightarrow> cache_payload_ok (run es s)"
  by (induction es arbitrary: s) (simp_all add: cache_payload_ok_step)

lemma cache_payload_ok_new: "cache_payload_ok (new_QueryCache g st)"
  by (simp add: cache_payload_ok_def)

text \<open>
  C6, as the code has it. Start from a new cache and perform any operations whose payloads
  are data, \<^verbatim>\<open>invalidateQuery\<close> being called only on keys that are absent or hold data.
  Then every entry in status \<^verbatim>\<open>first-success\<close>, \<^verbatim>\<open>success\<close> or \<^verbatim>\<open>fetching\<close>
  carries data, and every entry in status \<^verbatim>\<open>loading\<close> or \<^verbatim>\<open>error\<close> carries none;
  an \<^verbatim>\<open>idle\<close> entry may carry the data it had before it was cancelled.
\<close>

theorem payload_ok_reachable:
  assumes "admissible es (new_QueryCache g st)"
      and "cache (run es (new_QueryCache g st)) k = Some entry"
  shows "payload_ok (state entry)"
  using cache_payload_ok_run[OF cache_payload_ok_new assms(1)] assms(2)
  by (rule cache_payload_ok_entry)

lemma ex_loaded_run:
  "run [FetchQuery 1000 ''key'' 7 JUndefined, Settle 1010 0 (Resolved (JStr ''good data''))]
     (new_QueryCache None None) = ex_loaded"
  by (simp add: ex_loaded_def ex_loading_def ex_fresh_def)

lemma ex_cancelled:
  "cache (run [FetchQuery 2000 ''key'' 7 JUndefined, CancelQuery ''key''] ex_loaded) ''key'' =
     Some \<lparr>state = \<lparr>status = Idle, data = JStr ''good data'', error = None,
                    lastUpdatedAt = FORCE_STALE_TIME\<rparr>, queryFn = None\<rparr>"
  by (simp add: fetchQuery_def ex_loaded_fields ex_loaded_background cancelQuery_def)

lemma ex_cancelled_admissible:
  "admissible [FetchQuery 1000 ''key'' 7 JUndefined, Settle 1010 0 (Resolved (JStr ''good data'')),
               FetchQuery 2000 ''key'' 7 JUndefined, CancelQuery ''key''] (new_QueryCache None None)"
  by (simp add: carries_data_def)

theorem payload_ok_reachable_witness:
  "admissible [FetchQuery 1000 ''key'' 7 JUndefined, Settle 1010 0 (Resolved (JStr ''good data'')),
               FetchQuery 2000 ''key'' 7 JUndefined, CancelQuery ''key''] (new_QueryCache None None) \<and>
   cache (run [FetchQuery 1000 ''key'' 7 JUndefined, Settle 1010 0 (Resolved (JStr ''good data'')),
               FetchQuery 2000 ''key'' 7 JUndefined, CancelQuery ''key''] (new_QueryCache None None))
     ''key'' =
     Some \<lparr>state = \<lparr>status = Idle, data = JStr ''good data'', error = None,
                    lastUpdatedAt = FORCE_STALE_TIME\<rparr>, queryFn = None\<rparr> \<and>
   payload_ok \<lparr>status = Idle, data = JStr ''good data'', error = None,
               lastUpdatedAt = FORCE_STALE_TIME\<rparr>"
proof -
  have c: "cache (run [FetchQuery 1000 ''key'' 7 JUndefined,
                       Settle 1010 0 (Resolved (JStr ''good data'')),
                       FetchQuery 2000 ''key'' 7 JUndefined, CancelQuery ''key'']
                   (new_QueryCache None None)) ''key'' =
     Some \<lparr>state = \<lparr>status = Idle, data = JStr ''good data'', error = None,
                    lastUpdatedAt = FORCE_STALE_TIME\<rparr>, queryFn = None\<rparr>"
    using ex_cancelled ex_loaded_run by simp
  show ?thesis
    using ex_cancelled_admissible c payload_ok_reachable[OF ex_cancelled_admissible c]
    by simp
qed

text \<open>
  The claim C6 as stated fails. A first fetch resolves, a background fetch starts, and
  \<^verbatim>\<open>cancelQuery\<close> then leaves the entry \<^verbatim>\<open>idle\<close> with the data it had: an idle state
  that carries data.
\<close>

theorem idle_carries_data:
  "map_option (payload_invariant \<circ> state)
     (cache (run [FetchQuery 1000 ''key'' 7 JUndefined,
                  Settle 1010 0 (Resolved (JStr ''good data'')),
                  FetchQuery 2000 ''key'' 7 JUndefined, CancelQuery ''key'']
              (new_QueryCache None None)) ''key'') = Some False \<and>
   map_option (status \<circ> state)
     (cache (run [FetchQuery 1000 ''key'' 7 JUndefined,
                  Settle 1010 0 (Resolved (JStr ''good data'')),
                  FetchQuery 2000 ''key'' 7 JUndefined, CancelQuery ''key'']
              (new_QueryCache None None)) ''key'') = Some Idle \<and>
   map_option (data \<circ> state)
     (cache (run [FetchQuery 1000 ''key'' 7 JUndefined,
                  Settle 1010 0 (Resolved (JStr ''good data'')),
                  FetchQuery 2000 ''key'' 7 JUndefined, CancelQuery ''key'']
              (new_QueryCache None None)) ''key'') = Some (JStr ''good data'')"
proof -
  have "cache (run [FetchQuery 1000 ''key'' 7 JUndefined,
                       Settle 1010 0 (Resolved (JStr ''good data'')),
                       FetchQuery 2000 ''key'' 7 JUndefined, CancelQuery ''key'']
                   (new_QueryCache None None)) ''key'' =
     Some \<lparr>state = \<lparr>status = Idle, data = JStr ''good data'', error = None,
                    lastUpdatedAt = FORCE_STALE_TIME\<rparr>, queryFn = None\<rparr>"
    using ex_cancelled ex_loaded_run by simp
  then show ?thesis by (simp add: payload_invariant_def)
qed

subsection \<open>Invalidating an entry that holds no data\<close>

lemma ex_failed_fields:
  "cache ex_failed ''key'' =
     Some \<lparr>state = \<lparr>status = Error, data = JUndefined, error = Some (ErrorObject ''load failed''),
                    lastUpdatedAt = FORCE_STALE_TIME\<rparr>, queryFn = Some 7\<rparr>"
  "promisesInFlight ex_failed ''key'' = None"
  "staleTime ex_failed = 0"
  "queryFnCalls ex_failed = [(''key'', 7)]"
  "nextPromise ex_failed = 1"
  "subscribers ex_failed = Map.empty"
  by (simp_all add: ex_failed_def ex_loading_eq ex_fresh_def settle_def directQuery_resume_def
      DEFAULT_STALE_TIME_def)

text \<open>
  C7 at an entry outside the success family. After a failed first fetch the entry of
  \<open>ex_failed\<close> is in status \<^verbatim>\<open>error\<close> without data; \<^verbatim>\<open>invalidateQuery\<close> rewrites it
  to \<^verbatim>\<open>success\<close>, which lets the background fetch through: the fetch function is called
  again and the entry is \<^verbatim>\<open>fetching\<close> with no data. On the \<^verbatim>\<open>loading\<close> entry of
  \<open>ex_loading\<close>, whose fetch is in flight, it leaves status \<^verbatim>\<open>success\<close> with no data.
\<close>

theorem invalidateQuery_on_error_entry:
  "getState ''key'' ex_failed =
     Some \<lparr>status = Error, data = JUndefined, error = Some (ErrorObject ''load failed''),
           lastUpdatedAt = FORCE_STALE_TIME\<rparr> \<and>
   getState ''key'' (invalidateQuery 2000 ''key'' ex_failed) =
     Some \<lparr>status = Fetching, data = JUndefined, error = None, lastUpdatedAt = 2000\<rparr> \<and>
   queryFnCalls ex_failed = [(''key'', 7)] \<and>
   queryFnCalls (invalidateQuery 2000 ''key'' ex_failed) = [(''key'', 7), (''key'', 7)] \<and>
   getState ''key'' ex_loading =
     Some \<lparr>status = Loading, data = JUndefined, error = None, lastUpdatedAt = 1000\<rparr> \<and>
   getState ''key'' (invalidateQuery 1005 ''key'' ex_loading) =
     Some \<lparr>status = Success, data = JUndefined, error = None, lastUpdatedAt = FORCE_STALE_TIME\<rparr>"
  by (simp add: getState_def ex_failed_fields invalidateQuery_def backgroundQuery_def
      getDifferenceInMs_def FORCE_STALE_TIME_def Let_def ex_loading_eq)

subsection \<open>Garbage collection and subscribers\<close>

text \<open>
  C5 on the code. A component subscribes to \<^verbatim>\<open>'key'\<close>, data is set, the component
  unsubscribes, which arms timer 1, and another subscribes before the timer fires. The
  timer was not disarmed: when it fires, the key has one subscriber, and the entry and
  the subscriber set are deleted all the same.
\<close>

theorem gc_removes_subscribed_key:
  "getSubscriberCount ''key''
     (run [Subscribe ''key'' 1, SetData 1000 ''key'' (JStr ''data''), Unsubscribe ''key'' 1,
           Subscribe ''key'' 2] ex_fresh) = 1 \<and>
   timers
     (run [Subscribe ''key'' 1, SetData 1000 ''key'' (JStr ''data''), Unsubscribe ''key'' 1,
           Subscribe ''key'' 2] ex_fresh) 1 = Some (''key'', DEFAULT_GC_TIME) \<and>
   map_option (data \<circ> state)
     (cache (run [Subscribe ''key'' 1, SetData 1000 ''key'' (JStr ''data''), Unsubscribe ''key'' 1,
                  Subscribe ''key'' 2] ex_fresh) ''key'') = Some (JStr ''data'') \<and>
   cache
     (run [Subscribe ''key'' 1, SetData 1000 ''key'' (JStr ''data''), Unsubscribe ''key'' 1,
           Subscribe ''key'' 2, FireTimer 1] ex_fresh) ''key'' = None \<and>
   getSubscriberCount ''key''
     (run [Subscribe ''key'' 1, SetData 1000 ''key'' (JStr ''data''), Unsubscribe ''key'' 1,
           Subscribe ''key'' 2, FireTimer 1] ex_fresh) = 0"
  by (simp add: ex_fresh_def new_QueryCache_def subscribe_def setData_def unsubscribe_def
      getSubscriberCount_def scheduleGC_def fireTimer_def gcCallback_def
      setAndNotifySubscribers_def set_entry_def notifySubscribers_def Let_def)

subsection \<open>The callbacks of a mutation\<close>















subsection \<open>Timer handles are never reused\<close>

lemma timers_wf_new: "timers_wf (new_QueryCache g st)"
  by (simp add: timers_wf_def)

lemma timers_wf_cong:
  "timers_wf s \<Longrightarrow> timers s' = timers s \<Longrightarrow> gcTimeouts s' = gcTimeouts s \<Longrightarrow>
   nextTimer s' = nextTimer s \<Longrightarrow> timers_wf s'"
  by (simp add: timers_wf_def)

lemma timers_wf_set: "timers_wf s \<Longrightarrow> timers_wf (setAndNotifySubscribers k st fn s)"
  by (erule timers_wf_cong) simp_all

lemma timers_wf_call: "timers_wf s \<Longrightarrow> timers_wf (call_queryFn k fn c s)"
  by (erule timers_wf_cong) simp_all

lemma timers_wf_finallyCb: "timers_wf s \<Longrightarrow> timers_wf (finallyCb k s)"
  by (erule timers_wf_cong) simp_all

lemma timers_wf_directQuery: "timers_wf s \<Longrightarrow> timers_wf (directQuery now k fn init s)"
  by (erule timers_wf_cong) (simp_all add: directQuery_def Let_def)

lemma timers_wf_backgroundQuery: "timers_wf s \<Longrightarrow> timers_wf (backgroundQuery now k fn s)"
  by (erule timers_wf_cong)
     (simp_all add: backgroundQuery_def Let_def split: option.splits)

lemma scheduleGC_fields [simp]:
  "cache (scheduleGC k s) = cache s"
  "promisesInFlight (scheduleGC k s) = promisesInFlight s"
  "subscribers (scheduleGC k s) = subscribers s"
  "gcTimeouts (scheduleGC k s) = (gcTimeouts s)(k \<mapsto> nextTimer s)"
  "nextTimer (scheduleGC k s) = Suc (nextTimer s)"
  "awaiting (scheduleGC k s) = awaiting s"
  "queryFnCalls (scheduleGC k s) = queryFnCalls s"
  "notified (scheduleGC k s) = notified s"
  "timers (scheduleGC k s) =
     ((case gcTimeouts s k of
         None \<Rightarrow> timers s
       | Some h \<Rightarrow> if h \<noteq> 0 then (timers s)(h := None) else timers s)
      )(nextTimer s \<mapsto> (k, gcTime s))"
  by (simp_all add: scheduleGC_def clearTimeout_def Let_def split: option.splits)

lemma timers_wf_scheduleGC: "timers_wf s \<Longrightarrow> timers_wf (scheduleGC k s)"
  unfolding timers_wf_def
  by (auto simp add: less_Suc_eq split: option.splits if_splits)

lemma timers_wf_unsubscribe: "timers_wf s \<Longrightarrow> timers_wf (unsubscribe k cb s)"
proof (cases "subscribers s k")
  case None
  then show "timers_wf s \<Longrightarrow> ?thesis" by (simp add: unsubscribe_def)
next
  case (Some subs)
  assume wf: "timers_wf s"
  let ?s1 = "s\<lparr>subscribers := (subscribers s)(k \<mapsto> removeAll cb subs)\<rparr>"
  let ?s2 = "?s1\<lparr>subscribers := (subscribers ?s1)(k := None),
                 gcQueue := insert k (gcQueue ?s1)\<rparr>"
  have "timers_wf ?s1" and "timers_wf ?s2"
    using wf by (simp_all add: timers_wf_def)
  then show ?thesis
    using Some by (simp add: unsubscribe_def Let_def timers_wf_scheduleGC)
qed

lemma timers_wf_fireTimer: "timers_wf s \<Longrightarrow> timers_wf (fireTimer h s)"
  unfolding timers_wf_def
  by (auto simp add: fireTimer_def gcCallback_def split: option.splits if_splits)

lemma resume_timers [simp]:
  "timers (snd (directQuery_resume now k fn entry outcome s)) = timers s"
  "gcTimeouts (snd (directQuery_resume now k fn entry outcome s)) = gcTimeouts s"
  "nextTimer (snd (directQuery_resume now k fn entry outcome s)) = nextTimer s"
  "timers (snd (backgroundQuery_resume now k fn e t outcome s)) = timers s"
  "gcTimeouts (snd (backgroundQuery_resume now k fn e t outcome s)) = gcTimeouts s"
  "nextTimer (snd (backgroundQuery_resume now k fn e t outcome s)) = nextTimer s"
  by (simp_all add: directQuery_resume_def backgroundQuery_resume_def Let_def
      split: prod.splits option.splits)

lemma timers_wf_settle:
  assumes "timers_wf s" and "settle now p outcome s = Some (c, s')"
  shows "timers_wf s'"
proof -
  have wf: "timers_wf (s\<lparr>awaiting := (awaiting s)(p := None)\<rparr>)"
    using assms(1) by (simp add: timers_wf_def)
  from assms(2) obtain pend where p: "awaiting s p = Some pend"
    by (auto simp add: settle_def split: option.splits)
  show ?thesis
  proof (cases pend)
    case (DirectPending k fn entry)
    with p assms(2)
    have "s' = snd (directQuery_resume now k fn entry outcome
                      (s\<lparr>awaiting := (awaiting s)(p := None)\<rparr>))"
      by (simp add: settle_def)
    then show ?thesis by (intro timers_wf_cong[OF wf]) simp_all
  next
    case (BackgroundPending k fn entry t)
    with p assms(2)
    have "s' = snd (backgroundQuery_resume now k fn entry t outcome
                      (s\<lparr>awaiting := (awaiting s)(p := None)\<rparr>))"
      by (simp add: settle_def)
    then show ?thesis by (intro timers_wf_cong[OF wf]) simp_all
  qed
qed

lemma timers_wf_clear: "timers_wf s \<Longrightarrow> timers_wf (clear s)"
  by (simp add: timers_wf_def clear_def)

lemma timers_wf_step: "timers_wf s \<Longrightarrow> timers_wf (step e s)"
proof (cases e)
  case (Settle now p outcome)
  assume "timers_wf s"
  then show ?thesis
    using Settle by (auto split: option.splits intro: timers_wf_settle)
qed (auto simp add: fetchQuery_def refetchQuery_def setData_def invalidateQuery_def cancelQuery_def
      subscribe_def timers_wf_clear Let_def timers_wf_directQuery timers_wf_backgroundQuery
      timers_wf_set timers_wf_unsubscribe timers_wf_fireTimer
      split: option.splits
      intro: timers_wf_cong)

lemma timers_wf_run: "timers_wf s \<Longrightarrow> timers_wf (run es s)"
  by (induction es arbitrary: s) (simp_all add: timers_wf_step)

subsection \<open>Other keys are left alone\<close>

lemma filter_other_key:
  "k \<noteq> k' \<Longrightarrow> filter (\<lambda>(kk, callback). kk = k') (map (Pair k) xs) = []"
  by (induction xs) auto

lemma same_at_refl: "same_at k' s s"
  by (simp add: same_at_def)

lemma same_at_trans: "same_at k' s s1 \<Longrightarrow> same_at k' s1 s2 \<Longrightarrow> same_at k' s s2"
  by (simp add: same_at_def)

lemma same_at_set: "k \<noteq> k' \<Longrightarrow> same_at k' s (setAndNotifySubscribers k st fn s)"
  by (simp add: same_at_def filter_other_key)

lemma same_at_call: "k \<noteq> k' \<Longrightarrow> same_at k' s (call_queryFn k fn c s)"
  by (simp add: same_at_def)

lemma same_at_finallyCb: "k \<noteq> k' \<Longrightarrow> same_at k' s (finallyCb k s)"
  by (simp add: same_at_def)

lemma same_at_awaiting: "same_at k' s (s\<lparr>awaiting := a\<rparr>)"
  by (simp add: same_at_def)

lemma same_at_directQuery: "k \<noteq> k' \<Longrightarrow> same_at k' s (directQuery now k fn init s)"
  by (auto simp add: directQuery_def Let_def same_at_refl same_at_set
      intro: same_at_trans[OF same_at_set same_at_call])

lemma same_at_backgroundQuery:
  assumes "k \<noteq> k'"
  shows "same_at k' s (backgroundQuery now k fn s)"
proof (cases "backgroundQuery_proceeds now k s")
  case False
  then show ?thesis by (simp add: backgroundQuery_skips same_at_refl)
next
  case True
  then obtain entry where e: "cache s k = Some entry"
    using backgroundQuery_proceeds_entry by blast
  show ?thesis
    using assms
    by (simp add: backgroundQuery_fetches[OF True e] same_at_trans[OF same_at_set same_at_call])
qed

lemma same_at_fetchQuery: "k \<noteq> k' \<Longrightarrow> same_at k' s (fetchQuery now k fn init s)"
  by (simp add: fetchQuery_def same_at_directQuery same_at_backgroundQuery split: option.splits)

lemma same_at_refetchQuery:
  "k \<noteq> k' \<Longrightarrow> refetchQuery now k s = Inr s' \<Longrightarrow> same_at k' s s'"
  by (auto simp add: refetchQuery_def same_at_directQuery split: option.splits)

lemma same_at_setData: "k \<noteq> k' \<Longrightarrow> same_at k' s (setData now k d s)"
  by (simp add: setData_def same_at_set)

lemma same_at_invalidateQuery: "k \<noteq> k' \<Longrightarrow> same_at k' s (invalidateQuery now k s)"
  by (auto simp add: invalidateQuery_def Let_def same_at_refl same_at_set split: option.splits
      intro: same_at_trans[OF same_at_set same_at_backgroundQuery])

lemma same_at_cancelQuery: "k \<noteq> k' \<Longrightarrow> same_at k' s (cancelQuery k s)"
  by (auto simp add: cancelQuery_def Let_def same_at_def filter_other_key split: option.splits)

lemma same_at_subscribe: "k \<noteq> k' \<Longrightarrow> same_at k' s (subscribe k cb s)"
  by (simp add: subscribe_def Let_def same_at_def)

lemma same_at_scheduleGC:
  assumes "k \<noteq> k'" and "timers_wf s"
  shows "same_at k' s (scheduleGC k s)"
proof -
  have fresh: "timers s (nextTimer s) = None"
    using assms(2) by (cases "timers s (nextTimer s)") (auto simp add: timers_wf_def)
  have own: "gcTimeouts s k = Some h \<Longrightarrow> timers s h \<noteq> Some (k', d)" for h d
    using assms unfolding timers_wf_def by blast
  show ?thesis
    using assms(1) fresh own
    by (auto simp add: same_at_def split: option.splits)
qed

lemma same_at_unsubscribe:
  assumes "k \<noteq> k'" and "timers_wf s"
  shows "same_at k' s (unsubscribe k cb s)"
proof (cases "subscribers s k")
  case None
  then show ?thesis by (simp add: unsubscribe_def same_at_refl)
next
  case (Some subs)
  let ?s1 = "s\<lparr>subscribers := (subscribers s)(k \<mapsto> removeAll cb subs)\<rparr>"
  let ?s2 = "?s1\<lparr>subscribers := (subscribers ?s1)(k := None),
                 gcQueue := insert k (gcQueue ?s1)\<rparr>"
  have 1: "same_at k' s ?s1" and 2: "same_at k' s ?s2"
    using assms(1) by (simp_all add: same_at_def)
  have "timers_wf ?s2"
    using assms(2) by (simp add: timers_wf_def)
  then have "same_at k' s (scheduleGC k ?s2)"
    using same_at_trans[OF 2 same_at_scheduleGC[OF assms(1)]] by simp
  with 1 Some show ?thesis
    by (simp add: unsubscribe_def Let_def)
qed

lemma same_at_settle:
  assumes "awaiting s p = Some pend" and "pending_key pend \<noteq> k'"
      and "settle now p outcome s = Some (c, s')"
  shows "same_at k' s s'"
proof (cases pend)
  case (DirectPending k fn entry)
  with assms show ?thesis
    by (cases outcome)
       (auto simp add: settle_def directQuery_resume_def
         intro!: same_at_trans[OF same_at_awaiting same_at_trans[OF same_at_finallyCb same_at_set]])
next
  case (BackgroundPending k fn entry t)
  with assms show ?thesis
    by (cases outcome)
       (auto simp add: settle_def backgroundQuery_resume_def
         intro!: same_at_trans[OF same_at_awaiting same_at_trans[OF same_at_finallyCb same_at_set]])
qed

lemma same_at_fireTimer:
  assumes "timers s h = Some (k, d)" and "k \<noteq> k'"
  shows "same_at k' s (fireTimer h s)"
  using assms by (auto simp add: fireTimer_def gcCallback_def same_at_def)



lemma ex_two_keys_fields:
  "timers ex_two_keys 1 = Some (''other'', 300000)"
  "timers ex_two_keys 2 = Some (''key'', 300000)"
  "awaiting ex_two_keys 2 =
     Some (BackgroundPending ''key'' 7
            \<lparr>state = \<lparr>status = First_success, data = JStr ''data'', error = None,
                       lastUpdatedAt = 1010\<rparr>, queryFn = Some 7\<rparr> 1010)"
  "subscribers ex_two_keys ''other'' = Some [3]"
  "subscribers ex_two_keys ''key'' = Some [5]"
  "promisesInFlight ex_two_keys ''other'' = Some 0"
  "promisesInFlight ex_two_keys ''key'' = Some 2"
  "cache ex_two_keys ''other'' =
     Some \<lparr>state = \<lparr>status = Loading, data = JUndefined, error = None, lastUpdatedAt = 1000\<rparr>,
           queryFn = None\<rparr>"
  by (simp_all add: ex_two_keys_def new_QueryCache_def subscribe_def unsubscribe_def
      getSubscriberCount_def scheduleGC_def clearTimeout_def fetchQuery_def directQuery_def
      backgroundQuery_def settle_def directQuery_resume_def entry_is_loading_def entry_data_def
      getDifferenceInMs_def call_queryFn_def finallyCb_def setAndNotifySubscribers_def
      set_entry_def notifySubscribers_def Let_def DEFAULT_GC_TIME_def ONE_MINUTE_IN_MS_def
      ONE_SECOND_IN_MS_def DEFAULT_STALE_TIME_def
      FIRST_FETCH_SUCCESS_BACKGROUND_FETCH_BUFFER_WINDOW_MS_def)

text \<open>
  C10. In every state the cache reaches from a new one, each operation on key \<open>k\<close>, its
  continuation when the fetch settles, and the firing of a timer armed for \<open>k\<close>, leave
  every other key \<open>k'\<close> as it was: its entry, its subscriber set, its in-flight promise,
  its recorded timer handle and its armed timers are unchanged, and none of its
  subscribers is called. \<^verbatim>\<open>clear\<close> empties the registries for all keys at once.
\<close>

theorem per_key_isolation:
  assumes "k \<noteq> k'" and "s = run es (new_QueryCache g st)"
  shows "same_at k' s (fetchQuery now k fn init s) \<and>
         same_at k' s (directQuery now k fn init s) \<and>
         same_at k' s (backgroundQuery now k fn s) \<and>
         same_at k' s (setData now k d s) \<and>
         same_at k' s (invalidateQuery now k s) \<and>
         same_at k' s (cancelQuery k s) \<and>
         (\<forall>s'. refetchQuery now k s = Inr s' \<longrightarrow> same_at k' s s') \<and>
         same_at k' s (subscribe k cb s) \<and>
         same_at k' s (unsubscribe k cb s) \<and>
         (\<forall>pend c s'. awaiting s p = Some pend \<and> pending_key pend = k \<and>
                       settle now p outcome s = Some (c, s') \<longrightarrow> same_at k' s s') \<and>
         (\<forall>delay. timers s h = Some (k, delay) \<longrightarrow> same_at k' s (fireTimer h s)) \<and>
         cache (clear s) = Map.empty \<and> promisesInFlight (clear s) = Map.empty \<and>
         subscribers (clear s) = Map.empty \<and> gcTimeouts (clear s) = Map.empty"
proof -
  have wf: "timers_wf s"
    using assms(2) by (simp add: timers_wf_run timers_wf_new)
  have "\<forall>s'. refetchQuery now k s = Inr s' \<longrightarrow> same_at k' s s'"
    using assms(1) by (blast intro: same_at_refetchQuery)
  moreover have "\<forall>pend c s'. awaiting s p = Some pend \<and> pending_key pend = k \<and>
                       settle now p outcome s = Some (c, s') \<longrightarrow> same_at k' s s'"
    using assms(1) by (blast intro: same_at_settle)
  moreover have "\<forall>delay. timers s h = Some (k, delay) \<longrightarrow> same_at k' s (fireTimer h s)"
    using assms(1) by (blast intro: same_at_fireTimer)
  moreover have "cache (clear s) = Map.empty \<and> promisesInFlight (clear s) = Map.empty \<and>
         subscribers (clear s) = Map.empty \<and> gcTimeouts (clear s) = Map.empty"
    by (simp add: clear_def)
  ultimately show ?thesis
    using assms(1) wf
    by (simp add: same_at_fetchQuery same_at_directQuery same_at_backgroundQuery same_at_setData
        same_at_invalidateQuery same_at_cancelQuery same_at_subscribe same_at_unsubscribe)
qed

lemma ex_two_keys_settle:
  "settle 2005 2 (Resolved (JStr ''new data'')) ex_two_keys =
     Some (backgroundQuery_resume 2005 ''key'' 7
             \<lparr>state = \<lparr>status = First_success, data = JStr ''data'', error = None,
                        lastUpdatedAt = 1010\<rparr>, queryFn = Some 7\<rparr> 1010
             (Resolved (JStr ''new data''))
             (ex_two_keys\<lparr>awaiting := (awaiting ex_two_keys)(2 := None)\<rparr>))"
  by (simp add: settle_def ex_two_keys_fields)

theorem per_key_isolation_witness:
  "''key'' \<noteq> ''other'' \<and>
   subscribers ex_two_keys ''other'' = Some [3] \<and>
   promisesInFlight ex_two_keys ''other'' = Some 0 \<and>
   timers ex_two_keys 1 = Some (''other'', 300000) \<and>
   same_at ''other'' ex_two_keys (unsubscribe ''key'' 5 ex_two_keys) \<and>
   same_at ''other'' ex_two_keys (cancelQuery ''key'' ex_two_keys) \<and>
   same_at ''other'' ex_two_keys (invalidateQuery 2005 ''key'' ex_two_keys) \<and>
   timers ex_two_keys 2 = Some (''key'', 300000) \<and>
   same_at ''other'' ex_two_keys (fireTimer 2 ex_two_keys) \<and>
   map_option pending_key (awaiting ex_two_keys 2) = Some ''key'' \<and>
   settle 2005 2 (Resolved (JStr ''new data'')) ex_two_keys \<noteq> None \<and>
   same_at ''other'' ex_two_keys
     (snd (the (settle 2005 2 (Resolved (JStr ''new data'')) ex_two_keys))) \<and>
   refetchQuery 3000 ''key'' ex_loaded = Inr (directQuery 3000 ''key'' 7 JUndefined ex_loaded) \<and>
   same_at ''other'' ex_loaded (directQuery 3000 ''key'' 7 JUndefined ex_loaded) \<and>
   cache (clear ex_two_keys) ''key'' = None \<and> cache (clear ex_two_keys) ''other'' = None"
proof -
  have ne: "''key'' \<noteq> ''other''" by simp
  have r: "refetchQuery 3000 ''key'' ex_loaded = Inr (directQuery 3000 ''key'' 7 JUndefined ex_loaded)"
    by (simp add: refetchQuery_def ex_loaded_fields)
  have l: "ex_loaded = run [FetchQuery 1000 ''key'' 7 JUndefined,
                            Settle 1010 0 (Resolved (JStr ''good data''))] (new_QueryCache None None)"
    by (rule ex_loaded_run[symmetric])
  obtain c s' where st: "settle 2005 2 (Resolved (JStr ''new data'')) ex_two_keys = Some (c, s')"
    using ex_two_keys_settle by (metis surj_pair)
  show ?thesis
    using ne r st
      per_key_isolation[OF ne ex_two_keys_def, of 2005 7 JUndefined JNull 5 2
        "Resolved (JStr ''new data'')" 2]
      per_key_isolation[OF ne l, of 3000 7 JUndefined JNull 5 2
        "Resolved (JStr ''new data'')" 2]
    by (simp add: ex_two_keys_fields ex_two_keys_fields(1)[unfolded One_nat_def])
qed

end
